theory Spec2Isabelle
  imports Complex_Main "HOL-Library.AList" "HOL-Library.Multiset"
begin

section \<open>The emoji-to-icon mapping script\<close>

text \<open>
  A shallow embedding of \<^verbatim>\<open>createEmojiToIconMapping\<close>, the script that reads the emoji
  assignments of the icons, collects for every emoji key its competing icons, picks a
  winner per key, applies the manual tie-breaking file and writes three JSON artifacts.

  The script is one function with local variables; the embedding splits it at its comment
  headings (collection, resolution, manual overrides, output) and threads the locals
  through as values. The progress bar and the log lines outside the manual-override block
  only report; they are left out. The counters \<^verbatim>\<open>conflictCount\<close>, \<^verbatim>\<open>tieCount\<close>,
  \<^verbatim>\<open>primaryWins\<close>, \<^verbatim>\<open>alternativeWins\<close> and \<^verbatim>\<open>alternativeDiscarded\<close> feed those log lines
  only and are left out with them.
\<close>

subsection \<open>Strings\<close>

text \<open>
  A JavaScript string is a sequence of UTF-16 code units. \<open>ascii\<close> writes the ASCII
  literals of the source.
\<close>

type_synonym jsstring = "nat list"

definition ascii :: "string \<Rightarrow> jsstring" where
  "ascii s = map of_char s"

text \<open>
  \<^verbatim>\<open>s.trim() !== ""\<close>: \<^verbatim>\<open>trim\<close> removes white space and line terminators from both ends,
  so the result is empty exactly when every code unit of \<open>s\<close> is one of them.
\<close>

definition isWhiteSpace :: "nat \<Rightarrow> bool" where
  "isWhiteSpace c \<longleftrightarrow>
     c \<in> {0x09, 0x0A, 0x0B, 0x0C, 0x0D, 0x20, 0xA0, 0x1680, 0x2028, 0x2029, 0x202F, 0x205F,
          0x3000, 0xFEFF}
     \<or> (0x2000 \<le> c \<and> c \<le> 0x200A)"

definition trimIsEmpty :: "jsstring \<Rightarrow> bool" where
  "trimIsEmpty s \<longleftrightarrow> list_all isWhiteSpace s"

subsection \<open>Objects used as dictionaries\<close>

text \<open>
  \<^verbatim>\<open>conflicts\<close>, \<^verbatim>\<open>emojiToIcon\<close> and \<^verbatim>\<open>emojiTies\<close> are object literals \<^verbatim>\<open>{}\<close> indexed by
  strings. Such an object is modelled by the list of its own properties in creation
  order. Three traits of JavaScript objects are kept, because the script's tests and
  loops observe them:
  \<^item> a read \<^verbatim>\<open>obj[k]\<close> of a key that is not an own property falls through to
    \<^verbatim>\<open>Object.prototype\<close>, which holds a function (for \<^verbatim>\<open>__proto__\<close>: the prototype object)
    under each of \<open>protoNames\<close>;
  \<^item> a write \<^verbatim>\<open>obj[k] = v\<close> replaces the value of an own property in place and creates
    a new own property at the end otherwise, except for \<^verbatim>\<open>__proto__\<close>, whose setter
    creates no own property;
  \<^item> \<^verbatim>\<open>Object.keys\<close>, \<^verbatim>\<open>Object.entries\<close> and \<^verbatim>\<open>JSON.stringify\<close> enumerate the own
    properties whose key is an array index (a canonical decimal numeral below
    \<open>2^32 - 1\<close>) first, in ascending numeric order, then the others in creation order.
\<close>

type_synonym 'v jsobject = "(jsstring \<times> 'v) list"

definition protoKey :: jsstring where
  "protoKey = ascii ''__proto__''"

definition protoNames :: "jsstring list" where
  "protoNames = map ascii
     [''constructor'', ''__defineGetter__'', ''__defineSetter__'', ''hasOwnProperty'',
      ''__lookupGetter__'', ''__lookupSetter__'', ''isPrototypeOf'', ''propertyIsEnumerable'',
      ''toString'', ''valueOf'', ''__proto__'', ''toLocaleString'']"

datatype 'v property = Own 'v | Inherited | Missing

definition getProp :: "'v jsobject \<Rightarrow> jsstring \<Rightarrow> 'v property" where
  "getProp obj k =
     (case map_of obj k of
        Some v \<Rightarrow> Own v
      | None \<Rightarrow> if k \<in> set protoNames then Inherited else Missing)"

definition setProp :: "'v jsobject \<Rightarrow> jsstring \<Rightarrow> 'v \<Rightarrow> 'v jsobject" where
  "setProp obj k v = (if k = protoKey then obj else AList.update k v obj)"

definition isDigit :: "nat \<Rightarrow> bool" where
  "isDigit c \<longleftrightarrow> 48 \<le> c \<and> c \<le> 57"

definition decimalValue :: "jsstring \<Rightarrow> nat" where
  "decimalValue s = foldl (\<lambda>n c. 10 * n + (c - 48)) 0 s"

definition isArrayIndex :: "jsstring \<Rightarrow> bool" where
  "isArrayIndex s \<longleftrightarrow>
     s \<noteq> [] \<and> list_all isDigit s \<and> (length s = 1 \<or> hd s \<noteq> 48) \<and> decimalValue s < 4294967295"

definition ownEntries :: "'v jsobject \<Rightarrow> (jsstring \<times> 'v) list" where
  "ownEntries obj =
     sort_key (\<lambda>p. decimalValue (fst p)) (filter (\<lambda>p. isArrayIndex (fst p)) obj)
     @ filter (\<lambda>p. \<not> isArrayIndex (fst p)) obj"

text \<open>
  What holds of the own properties of an object that starts as \<^verbatim>\<open>{}\<close> and is only
  written by assignment: every key occurs once, and \<^verbatim>\<open>__proto__\<close> is not among them.
\<close>

definition objectInv :: "'v jsobject \<Rightarrow> bool" where
  "objectInv obj \<longleftrightarrow> distinct (map fst obj) \<and> protoKey \<notin> fst ` set obj"

subsection \<open>Array.prototype.sort\<close>

text \<open>
  \<^verbatim>\<open>xs.sort(cmp)\<close> is stable: an element \<open>x\<close> that stood before \<open>y\<close> stays before it
  unless \<open>cmp x y > 0\<close>. For a comparator that is a consistent ordering every stable
  algorithm returns the same list; the model is insertion from the right.
\<close>

fun insertBy :: "('a \<Rightarrow> 'a \<Rightarrow> 'n::{linorder,zero}) \<Rightarrow> 'a \<Rightarrow> 'a list \<Rightarrow> 'a list" where
  "insertBy cmp x [] = [x]"
| "insertBy cmp x (y # ys) = (if cmp x y \<le> 0 then x # y # ys else y # insertBy cmp x ys)"

definition jsSort :: "('a \<Rightarrow> 'a \<Rightarrow> 'n::{linorder,zero}) \<Rightarrow> 'a list \<Rightarrow> 'a list" where
  "jsSort cmp xs = foldr (insertBy cmp) xs []"

subsection \<open>Input and candidates\<close>

text \<open>
  \<^verbatim>\<open>interface Assignment\<close>. \<^verbatim>\<open>name\<close> and \<^verbatim>\<open>metaphor\<close> are never read. The input comes from
  \<^verbatim>\<open>JSON.parse\<close>, which does not check the interface: a field that the file lacks reads
  as \<^verbatim>\<open>undefined\<close>. For \<open>filename\<close> that is \<open>None\<close>; for \<open>emoji\<close> and \<open>subEmoji\<close> the
  script's truthiness tests treat \<^verbatim>\<open>undefined\<close> as they treat the empty string, which
  stands for both.

  The fields that are present have the types of the interface. An input that breaks them
  is outside the model: an element of \<^verbatim>\<open>assignments\<close> that is \<^verbatim>\<open>null\<close>, whose fields cannot
  be read, or a \<^verbatim>\<open>subEmoji\<close> that is truthy and not a string, which has no \<^verbatim>\<open>trim\<close>; the
  script stops on both with a TypeError. \<^verbatim>\<open>updateProgress\<close> and \<^verbatim>\<open>progressSpinner\<close> come
  from a module that is not among the sources; they report progress and are taken to
  return.
\<close>

record Assignment =
  filename :: "jsstring option"
  emoji :: jsstring
  subEmoji :: jsstring
  alternativeEmojis :: "jsstring list"
  similarity :: real

text \<open>
  \<^verbatim>\<open>interface ConflictCandidate\<close>. \<open>similarity\<close> is a finite number; on such numbers the
  sign of the difference that the comparator returns is the sign of the difference of
  the reals, so the order is that of \<open>real\<close>.
\<close>

record ConflictCandidate =
  filename :: "jsstring option"
  similarity :: real
  isPrimary :: bool
  altIndex :: "nat option"

text \<open>
  The way in which the script stops early on input of these types: a method is called on
  a value that lacks it, or a property is read from \<^verbatim>\<open>undefined\<close>.
\<close>

datatype error = TypeError

subsection \<open>Collecting the candidates\<close>

text \<open>
  The local array \<^verbatim>\<open>mappings\<close> of one assignment: the emoji, and the emoji followed by
  the sub-emoji when that is not blank. Each entry is \<^verbatim>\<open>{emoji, isPrimary, altIndex}\<close>.
  The block that would add the alternative emojis is commented out in the source, so
  every entry is primary and without \<^verbatim>\<open>altIndex\<close>.
\<close>

definition mappingsOf :: "Assignment \<Rightarrow> (jsstring \<times> bool \<times> nat option) list" where
  "mappingsOf a =
     (if emoji a \<noteq> [] then [(emoji a, True, None)] else [])
     @ (if emoji a \<noteq> [] \<and> subEmoji a \<noteq> [] \<and> \<not> trimIsEmpty (subEmoji a)
        then [(emoji a @ subEmoji a, True, None)] else [])"

text \<open>
  \<^verbatim>\<open>if (!conflicts[k]) conflicts[k] = []; conflicts[k].push(c)\<close>. An array is truthy, and
  so is what \<^verbatim>\<open>Object.prototype\<close> holds; the latter has no \<^verbatim>\<open>push\<close>.
\<close>

definition pushCandidate ::
  "ConflictCandidate list jsobject \<Rightarrow> jsstring \<Rightarrow> ConflictCandidate
     \<Rightarrow> error + ConflictCandidate list jsobject" where
  "pushCandidate conflicts k c =
     (let conflicts' = (if getProp conflicts k = Missing then setProp conflicts k [] else conflicts)
      in case getProp conflicts' k of
           Own cs \<Rightarrow> Inr (setProp conflicts' k (cs @ [c]))
         | Inherited \<Rightarrow> Inl TypeError
         | Missing \<Rightarrow> Inl TypeError)"

fun processMappings ::
  "(jsstring \<times> bool \<times> nat option) list \<Rightarrow> Assignment \<Rightarrow> ConflictCandidate list jsobject
     \<Rightarrow> error + ConflictCandidate list jsobject" where
  "processMappings [] a conflicts = Inr conflicts"
| "processMappings ((k, p, i) # ms) a conflicts =
     (case pushCandidate conflicts k
             \<lparr>filename = Assignment.filename a, similarity = Assignment.similarity a,
              isPrimary = p, altIndex = i\<rparr> of
        Inl e \<Rightarrow> Inl e
      | Inr conflicts' \<Rightarrow> processMappings ms a conflicts')"

text \<open>
  The loop over \<^verbatim>\<open>assignments.assignments\<close>, on the pair of \<^verbatim>\<open>conflicts\<close> and the
  counter \<^verbatim>\<open>primaryMappings\<close> (here \<open>primaries\<close>), which goes up by one for every entry
  of \<^verbatim>\<open>mappings\<close>.
\<close>

fun collectLoop ::
  "Assignment list \<Rightarrow> ConflictCandidate list jsobject \<times> nat
     \<Rightarrow> error + ConflictCandidate list jsobject \<times> nat" where
  "collectLoop [] st = Inr st"
| "collectLoop (a # as) (conflicts, primaries) =
     (case processMappings (mappingsOf a) a conflicts of
        Inl e \<Rightarrow> Inl e
      | Inr conflicts' \<Rightarrow> collectLoop as (conflicts', primaries + length (mappingsOf a)))"

definition collect :: "Assignment list \<Rightarrow> error + ConflictCandidate list jsobject \<times> nat" where
  "collect as = collectLoop as ([], 0)"

subsection \<open>Resolving the conflicts\<close>

text \<open>\<^verbatim>\<open>a.altIndex || 0\<close>\<close>

definition altOrder :: "ConflictCandidate \<Rightarrow> int" where
  "altOrder c = (case altIndex c of None \<Rightarrow> 0 | Some i \<Rightarrow> int i)"

text \<open>
  The branch \<^verbatim>\<open>candidates.length > 1\<close> up to the choice of \<^verbatim>\<open>winner\<close>: the result is
  the winner, the flag \<^verbatim>\<open>shouldAddToTies\<close> and the array \<^verbatim>\<open>primaryCandidates\<close> as the
  in-place sort leaves it. Reading \<^verbatim>\<open>winner.filename\<close> of a missing first element is
  the TypeError.
\<close>

definition pickWinner ::
  "ConflictCandidate list \<Rightarrow> error + ConflictCandidate \<times> bool \<times> ConflictCandidate list" where
  "pickWinner candidates =
     (let primaryCandidates = filter isPrimary candidates;
          alternativeCandidates = filter (\<lambda>c. \<not> isPrimary c) candidates
      in if length primaryCandidates > 0 then
           if length primaryCandidates > 1 then
             (let sorted = jsSort (\<lambda>a b. similarity b - similarity a) primaryCandidates
              in case sorted of
                   [] \<Rightarrow> Inl TypeError
                 | winner # _ \<Rightarrow> Inr (winner, True, sorted))
           else
             (case primaryCandidates of
                [] \<Rightarrow> Inl TypeError
              | winner # _ \<Rightarrow> Inr (winner, length primaryCandidates > 1, primaryCandidates))
         else
           (case jsSort (\<lambda>a b. altOrder a - altOrder b) alternativeCandidates of
              [] \<Rightarrow> Inl TypeError
            | winner # _ \<Rightarrow> Inr (winner, False, primaryCandidates)))"

record Resolved =
  emojiToIcon :: "jsstring option jsobject"
  emojiTies :: "jsstring option list jsobject"

text \<open>The body of the loop over \<^verbatim>\<open>Object.entries(conflicts)\<close>.\<close>

definition resolveEntry :: "jsstring \<times> ConflictCandidate list \<Rightarrow> Resolved \<Rightarrow> error + Resolved" where
  "resolveEntry entry st =
     (case entry of (emojiKey, candidates) \<Rightarrow>
        if length candidates > 1 then
          (case pickWinner candidates of
             Inl e \<Rightarrow> Inl e
           | Inr (winner, shouldAddToTies, primaryCandidates) \<Rightarrow>
               (let st' = st\<lparr>emojiToIcon := setProp (emojiToIcon st) emojiKey (filename winner)\<rparr>
                in if shouldAddToTies \<and> length primaryCandidates > 1
                   then Inr (st'\<lparr>emojiTies :=
                                 setProp (emojiTies st') emojiKey (map filename primaryCandidates)\<rparr>)
                   else Inr st'))
        else
          (case candidates of
             [] \<Rightarrow> Inl TypeError
           | candidate # _ \<Rightarrow>
               Inr (st\<lparr>emojiToIcon := setProp (emojiToIcon st) emojiKey (filename candidate)\<rparr>)))"

fun resolveLoop :: "(jsstring \<times> ConflictCandidate list) list \<Rightarrow> Resolved \<Rightarrow> error + Resolved" where
  "resolveLoop [] st = Inr st"
| "resolveLoop (entry # entries) st =
     (case resolveEntry entry st of
        Inl e \<Rightarrow> Inl e
      | Inr st' \<Rightarrow> resolveLoop entries st')"

definition resolveConflicts :: "ConflictCandidate list jsobject \<Rightarrow> error + Resolved" where
  "resolveConflicts conflicts =
     resolveLoop (ownEntries conflicts) \<lparr>emojiToIcon = [], emojiTies = []\<rparr>"

subsection \<open>Manual tie-breaking overrides\<close>

text \<open>
  What the \<^verbatim>\<open>try\<close> block around the manual tie-breaking file can meet:
  \<^item> \<open>FileMissing\<close>: \<^verbatim>\<open>readFile\<close> fails with \<^verbatim>\<open>ENOENT\<close>;
  \<^item> \<open>FileUnreadable\<close>: \<^verbatim>\<open>readFile\<close> fails otherwise, \<^verbatim>\<open>JSON.parse\<close> throws, or the
    parsed value is \<^verbatim>\<open>null\<close>, so that reading \<^verbatim>\<open>manualTies.ties\<close> throws;
  \<^item> \<open>TiesInvalid\<close>: the file parses and \<^verbatim>\<open>manualTies.ties\<close> is falsy or not of type
    \<^verbatim>\<open>'object'\<close>;
  \<^item> \<open>TiesObject entries\<close>: \<^verbatim>\<open>manualTies.ties\<close> is an object, and \<open>entries\<close> is what
    \<^verbatim>\<open>Object.entries\<close> lists for it, every key once.
  The value of an entry is an array of strings, as the cast \<^verbatim>\<open>tieArray[0] as string\<close>
  takes it to be, or something \<^verbatim>\<open>Array.isArray\<close> rejects.
\<close>

datatype tieValue = TieArray "jsstring list" | NotArray

datatype manualTieFile =
    FileMissing
  | FileUnreadable
  | TiesInvalid
  | TiesObject "(jsstring \<times> tieValue) list"

text \<open>
  The lines that the block writes with \<^verbatim>\<open>logInfo\<close> and \<^verbatim>\<open>logError\<close>, the only two
  levels of \<^verbatim>\<open>simple-build-log\<close>. \<open>ManualOverride\<close> keeps the key and the new winner of
  its line.
\<close>

datatype message =
    FoundManualFile
  | ManualOverride jsstring jsstring
  | AppliedOverrides nat
  | InvalidFormat
  | NoManualFile
  | ErrorReadingManualFile

datatype logLine = LogInfo message | LogError message

text \<open>
  The truthiness of \<^verbatim>\<open>emojiToIcon[emoji]\<close>: a string is truthy unless empty,
  \<^verbatim>\<open>undefined\<close> is falsy, and what \<^verbatim>\<open>Object.prototype\<close> holds is truthy.
\<close>

definition truthy :: "jsstring option property \<Rightarrow> bool" where
  "truthy p =
     (case p of
        Own (Some s) \<Rightarrow> s \<noteq> []
      | Own None \<Rightarrow> False
      | Inherited \<Rightarrow> True
      | Missing \<Rightarrow> False)"

text \<open>
  The body of the loop over \<^verbatim>\<open>Object.entries(manualTies.ties)\<close>, on \<^verbatim>\<open>emojiToIcon\<close>,
  the counter \<^verbatim>\<open>manualOverrides\<close> (here \<open>overrides\<close>) and the log.
\<close>

definition overrideEntry ::
  "jsstring \<times> tieValue \<Rightarrow> jsstring option jsobject \<times> nat \<times> logLine list
     \<Rightarrow> jsstring option jsobject \<times> nat \<times> logLine list" where
  "overrideEntry entry st =
     (case (entry, st) of ((key, tieArray), (toIcon, overrides, messages)) \<Rightarrow>
        (case tieArray of
           TieArray (manualWinner # _) \<Rightarrow>
             if truthy (getProp toIcon key) \<and> getProp toIcon key \<noteq> Own (Some manualWinner)
             then (setProp toIcon key (Some manualWinner),
                   overrides + 1,
                   messages @ [LogInfo (ManualOverride key manualWinner)])
             else st
         | _ \<Rightarrow> st))"

fun overrideLoop ::
  "(jsstring \<times> tieValue) list \<Rightarrow> jsstring option jsobject \<times> nat \<times> logLine list
     \<Rightarrow> jsstring option jsobject \<times> nat \<times> logLine list" where
  "overrideLoop [] st = st"
| "overrideLoop (entry # entries) st = overrideLoop entries (overrideEntry entry st)"

text \<open>
  The whole block: the result is the state after it, the counter \<^verbatim>\<open>manualOverrides\<close>
  and the lines logged. No path of the block rethrows.
\<close>

definition applyManualOverrides :: "manualTieFile \<Rightarrow> Resolved \<Rightarrow> Resolved \<times> nat \<times> logLine list" where
  "applyManualOverrides file st =
     (case file of
        FileMissing \<Rightarrow> (st, 0, [LogInfo NoManualFile])
      | FileUnreadable \<Rightarrow> (st, 0, [LogError ErrorReadingManualFile])
      | TiesInvalid \<Rightarrow> (st, 0, [LogInfo InvalidFormat])
      | TiesObject entries \<Rightarrow>
          (case overrideLoop entries (emojiToIcon st, 0, [LogInfo FoundManualFile]) of
             (toIcon, overrides, messages) \<Rightarrow>
               (st\<lparr>emojiToIcon := toIcon\<rparr>, overrides,
                messages @ [LogInfo (AppliedOverrides overrides)])))"

text \<open>
  Two readings of the loop for the properties below: \<^verbatim>\<open>emojiToIcon\<close> after one entry
  and after all of them, whatever the counter and the log; and the test
  \<^verbatim>\<open>Array.isArray(tieArray) && tieArray.length > 0\<close> on an entry.
\<close>

definition overriddenBy :: "jsstring \<times> tieValue \<Rightarrow> jsstring option jsobject \<Rightarrow> jsstring option jsobject" where
  "overriddenBy entry toIcon = fst (overrideEntry entry (toIcon, 0, []))"

definition overriddenIcons ::
  "(jsstring \<times> tieValue) list \<Rightarrow> jsstring option jsobject \<Rightarrow> jsstring option jsobject" where
  "overriddenIcons entries toIcon = fst (overrideLoop entries (toIcon, 0, []))"

definition nonEmptyArray :: "jsstring \<times> tieValue \<Rightarrow> bool" where
  "nonEmptyArray entry = (case snd entry of TieArray (w # ws) \<Rightarrow> True | _ \<Rightarrow> False)"

subsection \<open>The sorted views\<close>

text \<open>
  What the script takes from the JavaScript engine: \<^verbatim>\<open>String.prototype.localeCompare\<close>,
  the Unicode properties that the emoji pattern names, and \<open>sortUndefinedNames\<close>: what
  \<^verbatim>\<open>Array.prototype.sort\<close> makes of the entries of \<^verbatim>\<open>emojiToIcon\<close> when one of the icon
  names is \<^verbatim>\<open>undefined\<close> (see \<open>sortByIconName\<close> below).
\<close>

record Platform =
  localeCompare :: "jsstring \<Rightarrow> jsstring \<Rightarrow> int"
  isEmojiModifierBase :: "nat \<Rightarrow> bool"
  isEmojiModifier :: "nat \<Rightarrow> bool"
  isEmojiPresentation :: "nat \<Rightarrow> bool"
  isEmoji :: "nat \<Rightarrow> bool"
  sortUndefinedNames ::
    "(jsstring \<times> jsstring option) list \<Rightarrow> error + (jsstring \<times> jsstring option) list"

text \<open>
  The pattern has the flag \<^verbatim>\<open>u\<close>: it reads code points, a high surrogate followed by a
  low surrogate being one.
\<close>

fun codePoints :: "jsstring \<Rightarrow> nat list" where
  "codePoints (h # l # cs) =
     (if 0xD800 \<le> h \<and> h \<le> 0xDBFF \<and> 0xDC00 \<le> l \<and> l \<le> 0xDFFF
      then (0x10000 + (h - 0xD800) * 0x400 + (l - 0xDC00)) # codePoints cs
      else h # codePoints (l # cs))"
| "codePoints cs = cs"

text \<open>
  The number of matches of
  \<^verbatim>\<open>/\p{Emoji_Modifier_Base}\p{Emoji_Modifier}?|\p{Emoji_Presentation}|\p{Emoji}\uFE0F/gu\<close>:
  at each position the alternatives are tried in order, a match consumes its code points,
  and a position without match is skipped.
\<close>

fun emojiMatches :: "Platform \<Rightarrow> nat list \<Rightarrow> nat" where
  "emojiMatches P [] = 0"
| "emojiMatches P [c] = (if isEmojiModifierBase P c \<or> isEmojiPresentation P c then 1 else 0)"
| "emojiMatches P (c # d # cs) =
     (if isEmojiModifierBase P c then
        (if isEmojiModifier P d then 1 + emojiMatches P cs else 1 + emojiMatches P (d # cs))
      else if isEmojiPresentation P c then 1 + emojiMatches P (d # cs)
      else if isEmoji P c \<and> d = 0xFE0F then 1 + emojiMatches P cs
      else emojiMatches P (d # cs))"

text \<open>\<^verbatim>\<open>a.match(emojiRegex)?.length || 0\<close>\<close>

definition emojiLength :: "Platform \<Rightarrow> jsstring \<Rightarrow> nat" where
  "emojiLength P a = emojiMatches P (codePoints a)"

text \<open>The three comparators.\<close>

definition compareIconNames ::
  "Platform \<Rightarrow> jsstring \<times> jsstring option \<Rightarrow> jsstring \<times> jsstring option \<Rightarrow> int" where
  "compareIconNames P a b =
     (case (snd a, snd b) of
        (Some iconNameA, Some iconNameB) \<Rightarrow> localeCompare P iconNameA iconNameB
      | _ \<Rightarrow> 0)"

definition compareEmojiKeys :: "Platform \<Rightarrow> jsstring \<Rightarrow> jsstring \<Rightarrow> int" where
  "compareEmojiKeys P a b =
     (let aLength = emojiLength P a; bLength = emojiLength P b
      in if aLength \<noteq> bLength then int aLength - int bLength else localeCompare P a b)"

definition compareTieKeys :: "Platform \<Rightarrow> jsstring \<Rightarrow> jsstring \<Rightarrow> int" where
  "compareTieKeys P a b =
     (if length a \<noteq> length b then int (length a) - int (length b) else localeCompare P a b)"

text \<open>
  \<^verbatim>\<open>Object.entries(emojiToIcon).sort(...)\<close> by icon name. With fewer than two entries
  the comparator is not called. An icon name that is \<^verbatim>\<open>undefined\<close> makes
  \<^verbatim>\<open>iconNameA.localeCompare(iconNameB)\<close> throw when it is the receiver and compare
  against the text \<^verbatim>\<open>undefined\<close> when it is the argument; which of the two the sort
  meets, and so whether the script stops or goes on to write its files, depends on the
  engine's order of calls, which the language leaves open. The outcome is the engine's:
  \<open>sortUndefinedNames\<close>.
\<close>

definition sortByIconName ::
  "Platform \<Rightarrow> (jsstring \<times> jsstring option) list \<Rightarrow> error + (jsstring \<times> jsstring option) list" where
  "sortByIconName P entries =
     (if length entries \<le> 1 then Inr entries
      else if \<exists>p \<in> set entries. snd p = None then sortUndefinedNames P entries
      else Inr (jsSort (compareIconNames P) entries))"

text \<open>
  The loops that fill \<^verbatim>\<open>sortedEmojiToIcon\<close>, \<^verbatim>\<open>sortedEmojiToIconByEmoji\<close> and
  \<^verbatim>\<open>sortedEmojiTies\<close>: a fresh object receives the properties in sorted order.
\<close>

definition fromEntries :: "(jsstring \<times> 'v) list \<Rightarrow> 'v jsobject" where
  "fromEntries entries = foldl (\<lambda>obj p. setProp obj (fst p) (snd p)) [] entries"

definition ownKeys :: "'v jsobject \<Rightarrow> jsstring list" where
  "ownKeys obj = map fst (ownEntries obj)"

text \<open>\<^verbatim>\<open>obj[key]\<close> for a key that \<^verbatim>\<open>Object.keys(obj)\<close> has listed.\<close>

definition valueOfKey :: "'v jsobject \<Rightarrow> 'v \<Rightarrow> jsstring \<Rightarrow> 'v" where
  "valueOfKey obj absent k = (case map_of obj k of Some v \<Rightarrow> v | None \<Rightarrow> absent)"

definition sortedByEmoji :: "Platform \<Rightarrow> jsstring option jsobject \<Rightarrow> jsstring option jsobject" where
  "sortedByEmoji P toIcon =
     fromEntries (map (\<lambda>key. (key, valueOfKey toIcon None key))
                      (jsSort (compareEmojiKeys P) (ownKeys toIcon)))"

definition sortedTies :: "Platform \<Rightarrow> jsstring option list jsobject \<Rightarrow> jsstring option list jsobject" where
  "sortedTies P tieRecords =
     fromEntries (map (\<lambda>key. (key, valueOfKey tieRecords [] key))
                      (jsSort (compareTieKeys P) (ownKeys tieRecords)))"

subsection \<open>The output files\<close>

text \<open>
  The three objects handed to \<^verbatim>\<open>JSON.stringify\<close>. \<open>mappings\<close> and \<open>ties\<close> list the
  properties in the order in which \<^verbatim>\<open>JSON.stringify\<close> writes them; it leaves out of the
  text a property whose value is \<^verbatim>\<open>undefined\<close> (here \<open>None\<close>). \<open>generated\<close> is
  \<^verbatim>\<open>new Date().toISOString()\<close>, read once for each file.
\<close>

record FileHeader =
  generated :: string
  "note" :: string

record MappingsFile = FileHeader +
  totalMappings :: nat
  primaryMappings :: nat
  alternativeMappings :: nat
  manualOverrides :: nat
  mappings :: "(jsstring \<times> jsstring option) list"

record TiesFile = FileHeader +
  totalTies :: nat
  ties :: "(jsstring \<times> jsstring option list) list"

definition noteByIcon :: string where
  "noteByIcon = ''Sorted alphabetically by icon name (value). Manual overrides from emoji-ties-manually-broken.json are applied if the file exists.''"

definition noteByEmoji :: string where
  "noteByEmoji = ''Sorted alphabetically by emoji key. Manual overrides from emoji-ties-manually-broken.json are applied if the file exists.''"

definition noteTies :: string where
  "noteTies = ''Only contains primary emoji conflicts (primary vs primary). Alternative emoji conflicts are not included. Sorted by emoji length (shorter first), then alphabetically within each length group. To manually override tie-breaking, copy this file to 'emoji-ties-manually-broken.json' and reorder the arrays - the first item in each array will be used as the winner.''"

text \<open>
  The part of the script after the manual overrides. \<open>clock\<close> holds the three readings
  of the time; \<^verbatim>\<open>alternativeMappings\<close> is never incremented and stays 0.
\<close>

definition writeOutputs ::
  "Platform \<Rightarrow> string \<times> string \<times> string \<Rightarrow> nat \<Rightarrow> Resolved \<times> nat \<times> logLine list
     \<Rightarrow> error + MappingsFile \<times> MappingsFile \<times> TiesFile" where
  "writeOutputs P clock primaries final =
     (case (clock, final) of ((t1, t2, t3), (st, overrides, messages)) \<Rightarrow>
        (case sortByIconName P (ownEntries (emojiToIcon st)) of
           Inl e \<Rightarrow> Inl e
         | Inr sortedEmojiEntries \<Rightarrow>
             Inr (\<lparr>generated = t1, note = noteByIcon,
                   totalMappings = length (ownKeys (emojiToIcon st)),
                   primaryMappings = primaries, alternativeMappings = 0,
                   manualOverrides = overrides,
                   mappings = ownEntries (fromEntries sortedEmojiEntries)\<rparr>,
                  \<lparr>generated = t2, note = noteByEmoji,
                   totalMappings = length (ownKeys (emojiToIcon st)),
                   primaryMappings = primaries, alternativeMappings = 0,
                   manualOverrides = overrides,
                   mappings = ownEntries (sortedByEmoji P (emojiToIcon st))\<rparr>,
                  \<lparr>generated = t3, note = noteTies,
                   totalTies = length (ownKeys (emojiTies st)),
                   ties = ownEntries (sortedTies P (emojiTies st))\<rparr>)))"

subsection \<open>The script\<close>

definition createEmojiToIconMapping ::
  "Platform \<Rightarrow> string \<times> string \<times> string \<Rightarrow> Assignment list \<Rightarrow> manualTieFile
     \<Rightarrow> error + MappingsFile \<times> MappingsFile \<times> TiesFile" where
  "createEmojiToIconMapping P clock assignments manualTieFile =
     (case collect assignments of
        Inl e \<Rightarrow> Inl e
      | Inr (conflicts, primaries) \<Rightarrow>
          (case resolveConflicts conflicts of
             Inl e \<Rightarrow> Inl e
           | Inr st \<Rightarrow> writeOutputs P clock primaries (applyManualOverrides manualTieFile st)))"

text \<open>The three files with the time of their writing blanked.\<close>

definition unstamped ::
  "MappingsFile \<times> MappingsFile \<times> TiesFile \<Rightarrow> MappingsFile \<times> MappingsFile \<times> TiesFile" where
  "unstamped files =
     (case files of (byIcon, byEmoji, tieFile) \<Rightarrow>
        (byIcon\<lparr>generated := []\<rparr>, byEmoji\<lparr>generated := []\<rparr>, tieFile\<lparr>generated := []\<rparr>))"

subsection \<open>Worked examples\<close>

text \<open>
  A platform for the examples: the Unicode properties of the few symbols that the
  examples use, and comparison by code units, which agrees with \<^verbatim>\<open>localeCompare\<close> on
  what the examples compare: lower-case ASCII words with one another, and the exclamation
  mark with a digit (punctuation collates before digits). No example sorts two or more
  entries of which one has no icon name, so \<open>sortUndefinedNames\<close> is never reached; it
  is set to the TypeError that the sort raises when it calls \<^verbatim>\<open>localeCompare\<close> on
  \<^verbatim>\<open>undefined\<close>.
\<close>

fun codeUnitCompare :: "jsstring \<Rightarrow> jsstring \<Rightarrow> int" where
  "codeUnitCompare [] [] = 0"
| "codeUnitCompare [] (y # ys) = - 1"
| "codeUnitCompare (x # xs) [] = 1"
| "codeUnitCompare (x # xs) (y # ys) =
     (if x < y then - 1 else if y < x then 1 else codeUnitCompare xs ys)"

definition examplePlatform :: Platform where
  "examplePlatform =
     \<lparr>localeCompare = codeUnitCompare,
      isEmojiModifierBase = (\<lambda>c. c = 0x1F44D),
      isEmojiModifier = (\<lambda>c. 0x1F3FB \<le> c \<and> c \<le> 0x1F3FF),
      isEmojiPresentation = (\<lambda>c. c \<in> {0x2795, 0x2B55, 0x1F4C4, 0x1F44D}),
      isEmoji = (\<lambda>c. c \<in> {0x2795, 0x2B55, 0x1F4C4, 0x1F44D, 0x2764} \<or> isDigit c),
      sortUndefinedNames = (\<lambda>entries. Inl TypeError)\<rparr>"

definition proposal :: "string \<Rightarrow> jsstring \<Rightarrow> jsstring \<Rightarrow> real \<Rightarrow> Assignment" where
  "proposal f e s c =
     \<lparr>Assignment.filename = Some (ascii f), emoji = e, subEmoji = s, alternativeEmojis = [],
      Assignment.similarity = c\<rparr>"

definition candidate :: "string \<Rightarrow> real \<Rightarrow> bool \<Rightarrow> nat option \<Rightarrow> ConflictCandidate" where
  "candidate f c p i =
     \<lparr>filename = Some (ascii f), similarity = c, isPrimary = p, altIndex = i\<rparr>"

text \<open>The heavy plus sign, the heavy large circle, and the page facing up (a surrogate pair).\<close>

definition plusSign :: jsstring where
  "plusSign = [0x2795]"

definition largeCircle :: jsstring where
  "largeCircle = [0x2B55]"

definition pageFacingUp :: jsstring where
  "pageFacingUp = [0xD83D, 0xDCC4]"

text \<open>
  A \<^verbatim>\<open>conflicts\<close> object with the three kinds of key: primaries against primaries and an
  alternative, alternatives only, and a single candidate; and the state that the
  resolution reaches on it.
\<close>

definition plusCandidates :: "ConflictCandidate list" where
  "plusCandidates =
     [candidate ''plus'' 0.8 True None, candidate ''alt'' 0.95 False (Some 0),
      candidate ''add'' 0.9 True None, candidate ''cross'' 0.9 True None]"

definition circleCandidates :: "ConflictCandidate list" where
  "circleCandidates =
     [candidate ''ring'' 0.5 False (Some 2), candidate ''circle'' 0.7 False (Some 1),
      candidate ''loop'' 0.9 False (Some 1)]"

definition pageCandidates :: "ConflictCandidate list" where
  "pageCandidates = [candidate ''file'' 0.6 True None]"

definition exampleConflicts :: "ConflictCandidate list jsobject" where
  "exampleConflicts =
     [(plusSign, plusCandidates), (largeCircle, circleCandidates), (pageFacingUp, pageCandidates)]"

definition exampleResolved :: Resolved where
  "exampleResolved =
     \<lparr>emojiToIcon =
        [(plusSign, Some (ascii ''add'')), (largeCircle, Some (ascii ''circle'')),
         (pageFacingUp, Some (ascii ''file''))],
      emojiTies =
        [(plusSign, [Some (ascii ''add''), Some (ascii ''cross''), Some (ascii ''plus'')])]\<rparr>"

text \<open>An assignment whose \<^verbatim>\<open>filename\<close> the input file lacks.\<close>

definition unnamedProposal :: Assignment where
  "unnamedProposal =
     \<lparr>Assignment.filename = None, emoji = plusSign, subEmoji = [], alternativeEmojis = [],
      Assignment.similarity = 0.9\<rparr>"

definition unnamedCandidate :: ConflictCandidate where
  "unnamedCandidate = \<lparr>filename = None, similarity = 0.9, isPrimary = True, altIndex = None\<rparr>"

text \<open>
  The second example scenario of the specification; and two labels of one character each,
  an exclamation mark and a digit.
\<close>

definition circleOnly :: "Assignment list" where
  "circleOnly = [proposal ''circle'' largeCircle [] 0.7]"

definition markAndDigit :: "Assignment list" where
  "markAndDigit = [proposal ''alert'' (ascii ''!'') [] 0.85, proposal ''nine'' (ascii ''9'') [] 0.85]"

text \<open>
  The order that claim C9 words, to set beside the order of the file: first the number of
  grapheme units of the key, a symbol followed by a modifier or by the variation selector
  being one unit and any other code point a unit of its own, then \<^verbatim>\<open>localeCompare\<close>.
\<close>

fun graphemeUnits :: "Platform \<Rightarrow> nat list \<Rightarrow> nat" where
  "graphemeUnits P [] = 0"
| "graphemeUnits P [c] = 1"
| "graphemeUnits P (c # d # cs) =
     (if isEmojiModifier P d \<or> d = 0xFE0F then 1 + graphemeUnits P cs
      else 1 + graphemeUnits P (d # cs))"

definition claimedBefore :: "Platform \<Rightarrow> jsstring \<Rightarrow> jsstring \<Rightarrow> bool" where
  "claimedBefore P a b \<longleftrightarrow>
     graphemeUnits P (codePoints a) < graphemeUnits P (codePoints b)
     \<or> (graphemeUnits P (codePoints a) = graphemeUnits P (codePoints b)
        \<and> localeCompare P a b < 0)"

section \<open>Properties\<close>

text \<open>
  The properties of the resolution are stated for any \<^verbatim>\<open>conflicts\<close> object that satisfies
  \<open>objectInv\<close>, so that they cover candidate lists with alternative candidates, which
  the collection as it stands never builds. Every object that the collection returns
  satisfies \<open>objectInv\<close> (\<open>collect_objectInv\<close> below).
\<close>

subsection \<open>Objects\<close>

lemma map_of_setProp:
  "k \<noteq> protoKey \<Longrightarrow> map_of (setProp obj k v) = (map_of obj)(k \<mapsto> v)"
  by (simp add: setProp_def update_conv')

lemma map_of_setProp_other:
  "k' \<noteq> k \<Longrightarrow> map_of (setProp obj k v) k' = map_of obj k'"
  by (simp add: setProp_def update_conv')

lemma keys_setProp:
  "fst ` set (setProp obj k v) = (if k = protoKey then fst ` set obj else insert k (fst ` set obj))"
  by (simp add: setProp_def dom_update)

lemma distinct_setProp:
  "distinct (map fst obj) \<Longrightarrow> distinct (map fst (setProp obj k v))"
  by (simp add: setProp_def distinct_update)

lemma set_ownEntries: "set (ownEntries obj) = set obj"
  by (auto simp: ownEntries_def)

lemma mset_ownEntries: "mset (ownEntries obj) = mset obj"
  by (simp add: ownEntries_def)

lemma distinct_ownEntries:
  "distinct (map fst obj) \<Longrightarrow> distinct (map fst (ownEntries obj))"
proof -
  assume d: "distinct (map fst obj)"
  have "mset (map fst (ownEntries obj)) = mset (map fst obj)"
    by (simp add: mset_ownEntries)
  then show ?thesis
    using d mset_eq_imp_distinct_iff by blast
qed

lemma map_of_ownEntries:
  "distinct (map fst obj) \<Longrightarrow> map_of (ownEntries obj) = map_of obj"
  by (rule map_of_inject_set [THEN iffD2]) (simp_all add: distinct_ownEntries set_ownEntries)

subsection \<open>Sorting\<close>

lemma insertBy_key:
  assumes "\<And>x y. cmp x y \<le> 0 \<longleftrightarrow> f x \<le> f y"
  shows "insertBy cmp x ys = insort_key f x ys"
  by (induction ys) (simp_all add: assms)

lemma jsSort_key:
  assumes "\<And>x y. cmp x y \<le> 0 \<longleftrightarrow> f x \<le> f y"
  shows "jsSort cmp xs = sort_key f xs"
  unfolding jsSort_def sort_key_def
  by (induction xs) (simp_all add: insertBy_key [OF assms])

lemma jsSort_similarity:
  "jsSort (\<lambda>a b. similarity b - similarity a) xs = sort_key (\<lambda>c. - similarity c) xs"
  by (rule jsSort_key) simp

lemma jsSort_altOrder:
  "jsSort (\<lambda>a b. altOrder a - altOrder b) xs = sort_key altOrder xs"
  by (rule jsSort_key) simp

lemma set_insertBy: "set (insertBy cmp x ys) = insert x (set ys)"
  by (induction ys) auto

lemma mset_insertBy: "mset (insertBy cmp x ys) = add_mset x (mset ys)"
  by (induction ys) auto

lemma mset_jsSort: "mset (jsSort cmp xs) = mset xs"
  unfolding jsSort_def by (induction xs) (simp_all add: mset_insertBy)

lemma set_jsSort: "set (jsSort cmp xs) = set xs"
  using mset_jsSort [of cmp xs] by (metis set_mset_mset)

lemma length_jsSort: "length (jsSort cmp xs) = length xs"
  using mset_jsSort [of cmp xs] by (metis size_mset)


lemma sort_key_Nil_iff: "sort_key f xs = [] \<longleftrightarrow> xs = []"
  by (metis length_0_conv length_sort)




subsection \<open>The loop body of the resolution\<close>

lemma no_primary_alternatives:
  "filter isPrimary C = [] \<Longrightarrow> filter (\<lambda>c. \<not> isPrimary c) C = C"
  by (induction C) (simp_all split: if_splits)

lemma pickWinner_primary:
  assumes "filter isPrimary C \<noteq> []"
  shows "pickWinner C =
     Inr (hd (sort_key (\<lambda>c. - similarity c) (filter isPrimary C)),
          2 \<le> length (filter isPrimary C),
          if 2 \<le> length (filter isPrimary C)
          then sort_key (\<lambda>c. - similarity c) (filter isPrimary C)
          else filter isPrimary C)"
proof (cases "2 \<le> length (filter isPrimary C)")
  case True
  let ?S = "sort_key (\<lambda>c. - similarity c) (filter isPrimary C)"
  have "?S \<noteq> []" using assms by (simp add: sort_key_Nil_iff)
  then obtain w ws where "?S = w # ws" by (cases ?S) auto
  then show ?thesis
    using True assms by (simp add: pickWinner_def Let_def jsSort_similarity)
next
  case False
  then obtain w where one: "filter isPrimary C = [w]"
    using assms by (cases "filter isPrimary C"; cases "tl (filter isPrimary C)") auto
  then show ?thesis
    by (simp add: pickWinner_def Let_def)
qed

lemma pickWinner_alternative:
  assumes "filter isPrimary C = []" "C \<noteq> []"
  shows "pickWinner C = Inr (hd (sort_key altOrder C), False, [])"
proof -
  have "sort_key altOrder C \<noteq> []" using assms(2) by (simp add: sort_key_Nil_iff)
  then obtain w ws where "sort_key altOrder C = w # ws" by (cases "sort_key altOrder C") auto
  then show ?thesis
    using assms by (simp add: pickWinner_def Let_def jsSort_altOrder no_primary_alternatives)
qed

text \<open>The winner of a candidate list, and what the body adds to the tie records.\<close>

lemma resolveEntry_Nil: "resolveEntry (k, []) st = Inl TypeError"
  by (simp add: resolveEntry_def)

lemma resolveEntry_result:
  assumes "C \<noteq> []"
  shows "resolveEntry (k, C) st =
     Inr (st\<lparr>emojiToIcon :=
               setProp (emojiToIcon st) k
                 (filename (if filter isPrimary C \<noteq> []
                            then hd (sort_key (\<lambda>c. - similarity c) (filter isPrimary C))
                            else hd (sort_key altOrder C))),
             emojiTies :=
               (if 2 \<le> length (filter isPrimary C)
                then setProp (emojiTies st) k
                       (map filename (sort_key (\<lambda>c. - similarity c) (filter isPrimary C)))
                else emojiTies st)\<rparr>)"
proof (cases "1 < length C")
  case True
  show ?thesis
  proof (cases "filter isPrimary C = []")
    case True
    with \<open>1 < length C\<close> assms show ?thesis
      by (simp add: resolveEntry_def pickWinner_alternative)
  next
    case False
    with \<open>1 < length C\<close> show ?thesis
      by (simp add: resolveEntry_def pickWinner_primary)
  qed
next
  case False
  then obtain c where single: "C = [c]"
    using assms by (cases C; cases "tl C") auto
  have "length (filter isPrimary [c]) \<le> 1" by simp
  then show ?thesis
    unfolding single by (simp add: resolveEntry_def)
qed

lemma resolveEntry_Inr_nonempty: "resolveEntry (k, C) st = Inr st' \<Longrightarrow> C \<noteq> []"
  by (auto simp: resolveEntry_Nil)

lemma resolveEntry_frame:
  assumes "resolveEntry (k', C) st = Inr st'" "k \<noteq> k'"
  shows "map_of (emojiToIcon st') k = map_of (emojiToIcon st) k"
    and "map_of (emojiTies st') k = map_of (emojiTies st) k"
proof -
  have ne: "C \<noteq> []" using assms(1) by (rule resolveEntry_Inr_nonempty)
  from assms(1) show "map_of (emojiToIcon st') k = map_of (emojiToIcon st) k"
    unfolding resolveEntry_result [OF ne] using assms(2) by (auto simp: map_of_setProp_other)
  from assms(1) show "map_of (emojiTies st') k = map_of (emojiTies st) k"
    unfolding resolveEntry_result [OF ne] using assms(2) by (auto simp: map_of_setProp_other)
qed

lemma resolveEntry_keys:
  assumes "resolveEntry (k, C) st = Inr st'"
  shows "fst ` set (emojiToIcon st') = (if k = protoKey then {} else {k}) \<union> fst ` set (emojiToIcon st)"
    and "fst ` set (emojiTies st') =
           (if k \<noteq> protoKey \<and> 2 \<le> length (filter isPrimary C) then {k} else {})
           \<union> fst ` set (emojiTies st)"
proof -
  have ne: "C \<noteq> []" using assms(1) by (rule resolveEntry_Inr_nonempty)
  obtain w where icon: "emojiToIcon st' = setProp (emojiToIcon st) k w"
    using assms unfolding resolveEntry_result [OF ne] by auto
  show "fst ` set (emojiToIcon st') = (if k = protoKey then {} else {k}) \<union> fst ` set (emojiToIcon st)"
    unfolding icon keys_setProp by simp
  show "fst ` set (emojiTies st') =
           (if k \<noteq> protoKey \<and> 2 \<le> length (filter isPrimary C) then {k} else {})
           \<union> fst ` set (emojiTies st)"
  proof (cases "2 \<le> length (filter isPrimary C)")
    case True
    then obtain t where "emojiTies st' = setProp (emojiTies st) k t"
      using assms unfolding resolveEntry_result [OF ne] by auto
    then show ?thesis using True by (simp add: keys_setProp)
  next
    case False
    then have "emojiTies st' = emojiTies st"
      using assms unfolding resolveEntry_result [OF ne] by auto
    then show ?thesis using False by simp
  qed
qed

subsection \<open>The resolution loop\<close>

lemma resolveLoop_frame:
  assumes "resolveLoop es st = Inr st'" "k \<notin> fst ` set es"
  shows "map_of (emojiToIcon st') k = map_of (emojiToIcon st) k
       \<and> map_of (emojiTies st') k = map_of (emojiTies st) k"
  using assms
proof (induction es arbitrary: st)
  case Nil
  then show ?case by simp
next
  case (Cons e es)
  obtain k' C where e: "e = (k', C)" by (cases e)
  from Cons.prems(1) obtain s1 where
    step: "resolveEntry (k', C) st = Inr s1" and rest: "resolveLoop es s1 = Inr st'"
    unfolding e by (auto split: sum.splits)
  have "k \<noteq> k'" using Cons.prems(2) e by auto
  with resolveEntry_frame [OF step] Cons.IH [OF rest] Cons.prems(2) show ?case by simp
qed

lemma resolveLoop_entry:
  assumes "resolveLoop es st = Inr st'" "distinct (map fst es)" "(k, C) \<in> set es"
  shows "\<exists>sa sb. resolveEntry (k, C) sa = Inr sb
       \<and> map_of (emojiToIcon st') k = map_of (emojiToIcon sb) k
       \<and> map_of (emojiTies st') k = map_of (emojiTies sb) k
       \<and> map_of (emojiTies sa) k = map_of (emojiTies st) k"
  using assms
proof (induction es arbitrary: st)
  case Nil
  then show ?case by simp
next
  case (Cons e es)
  obtain k' C' where e: "e = (k', C')" by (cases e)
  from Cons.prems(1) obtain s1 where
    step: "resolveEntry (k', C') st = Inr s1" and rest: "resolveLoop es s1 = Inr st'"
    unfolding e by (auto split: sum.splits)
  show ?case
  proof (cases "(k, C) = e")
    case True
    then have same: "k' = k" "C' = C" using e by simp_all
    have "k \<notin> fst ` set es" using Cons.prems(2) e same by simp
    from resolveLoop_frame [OF rest this] step show ?thesis
      unfolding same by blast
  next
    case False
    then have mem: "(k, C) \<in> set es" using Cons.prems(3) by simp
    have dist: "distinct (map fst es)" using Cons.prems(2) by simp
    have "k \<noteq> k'" using Cons.prems(2) mem e by force
    from Cons.IH [OF rest dist mem] obtain sa sb where
      "resolveEntry (k, C) sa = Inr sb"
      "map_of (emojiToIcon st') k = map_of (emojiToIcon sb) k"
      "map_of (emojiTies st') k = map_of (emojiTies sb) k"
      "map_of (emojiTies sa) k = map_of (emojiTies s1) k"
      by blast
    with resolveEntry_frame(2) [OF step \<open>k \<noteq> k'\<close>] show ?thesis by metis
  qed
qed

lemma resolveLoop_keys:
  assumes "resolveLoop es st = Inr st'"
  shows "fst ` set (emojiTies st') \<subseteq> fst ` set (emojiToIcon st') \<or> \<not> fst ` set (emojiTies st) \<subseteq> fst ` set (emojiToIcon st)"
  using assms
proof (induction es arbitrary: st)
  case Nil
  then show ?case by simp
next
  case (Cons e es)
  obtain k' C' where e: "e = (k', C')" by (cases e)
  from Cons.prems(1) obtain s1 where
    step: "resolveEntry (k', C') st = Inr s1" and rest: "resolveLoop es s1 = Inr st'"
    unfolding e by (auto split: sum.splits)
  from resolveEntry_keys [OF step] Cons.IH [OF rest] show ?case by (auto split: if_splits)
qed


subsection \<open>Resolution as a whole\<close>

lemma resolveConflicts_absent:
  assumes "resolveConflicts conflicts = Inr st" "k \<notin> fst ` set conflicts"
  shows "map_of (emojiToIcon st) k = None" and "map_of (emojiTies st) k = None"
proof -
  have "k \<notin> fst ` set (ownEntries conflicts)" using assms(2) by (simp add: set_ownEntries)
  from resolveLoop_frame [OF assms(1) [unfolded resolveConflicts_def] this]
  show "map_of (emojiToIcon st) k = None" and "map_of (emojiTies st) k = None" by simp_all
qed

lemma resolveConflicts_present:
  assumes inv: "objectInv conflicts"
    and run: "resolveConflicts conflicts = Inr st"
    and key: "map_of conflicts k = Some C"
  shows "C \<noteq> []"
    and "map_of (emojiToIcon st) k =
           Some (filename (if filter isPrimary C \<noteq> []
                           then hd (sort_key (\<lambda>c. - similarity c) (filter isPrimary C))
                           else hd (sort_key altOrder C)))"
    and "map_of (emojiTies st) k =
           (if 2 \<le> length (filter isPrimary C)
            then Some (map filename (sort_key (\<lambda>c. - similarity c) (filter isPrimary C)))
            else None)"
proof -
  have mem: "(k, C) \<in> set (ownEntries conflicts)"
    using key by (simp add: set_ownEntries map_of_SomeD)
  have dist: "distinct (map fst (ownEntries conflicts))"
    using inv by (simp add: objectInv_def distinct_ownEntries)
  have k: "k \<noteq> protoKey"
    using inv key unfolding objectInv_def by (metis map_of_SomeD fst_conv image_eqI)
  from resolveLoop_entry [OF run [unfolded resolveConflicts_def] dist mem]
  obtain sa sb where
    step: "resolveEntry (k, C) sa = Inr sb"
    and icon: "map_of (emojiToIcon st) k = map_of (emojiToIcon sb) k"
    and ties: "map_of (emojiTies st) k = map_of (emojiTies sb) k"
    and before: "map_of (emojiTies sa) k = None"
    by auto
  show ne: "C \<noteq> []" using step by (rule resolveEntry_Inr_nonempty)
  from step have sb: "sb = sa\<lparr>emojiToIcon :=
               setProp (emojiToIcon sa) k
                 (filename (if filter isPrimary C \<noteq> []
                            then hd (sort_key (\<lambda>c. - similarity c) (filter isPrimary C))
                            else hd (sort_key altOrder C))),
             emojiTies :=
               (if 2 \<le> length (filter isPrimary C)
                then setProp (emojiTies sa) k
                       (map filename (sort_key (\<lambda>c. - similarity c) (filter isPrimary C)))
                else emojiTies sa)\<rparr>"
    unfolding resolveEntry_result [OF ne] by simp
  show "map_of (emojiToIcon st) k =
           Some (filename (if filter isPrimary C \<noteq> []
                           then hd (sort_key (\<lambda>c. - similarity c) (filter isPrimary C))
                           else hd (sort_key altOrder C)))"
    unfolding icon sb using k by (simp add: map_of_setProp)
  show "map_of (emojiTies st) k =
           (if 2 \<le> length (filter isPrimary C)
            then Some (map filename (sort_key (\<lambda>c. - similarity c) (filter isPrimary C)))
            else None)"
    unfolding ties sb using k before by (simp add: map_of_setProp)
qed





subsection \<open>The examples, evaluated\<close>

lemmas example_defs =
  ascii_def candidate_def plusSign_def largeCircle_def pageFacingUp_def protoKey_def
  plusCandidates_def circleCandidates_def pageCandidates_def exampleConflicts_def
  exampleResolved_def

lemmas object_defs =
  getProp_def setProp_def protoNames_def ownEntries_def isArrayIndex_def isDigit_def
  decimalValue_def objectInv_def

lemma exampleConflicts_inv: "objectInv exampleConflicts"
  by (simp add: example_defs object_defs)

lemma exampleConflicts_resolved: "resolveConflicts exampleConflicts = Inr exampleResolved"
  by (simp add: example_defs object_defs resolveConflicts_def resolveEntry_def pickWinner_def
      jsSort_def altOrder_def)



subsection \<open>The tie records\<close>






subsection \<open>The loop of the manual overrides\<close>

lemma overrideEntry_mapping:
  "fst (overrideEntry e (m, n, l)) = overriddenBy e m"
  by (cases e) (auto simp: overrideEntry_def overriddenBy_def split: tieValue.splits list.splits)

lemma overrideLoop_mapping:
  "fst (overrideLoop es (m, n, l)) = overriddenIcons es m"
proof -
  have "fst (overrideLoop es (m, n, l)) = fst (overrideLoop es (m, n', l'))" for n' l'
  proof (induction es arbitrary: m n l n' l')
    case Nil
    show ?case by simp
  next
    case (Cons e es)
    obtain m1 n1 l1 where 1: "overrideEntry e (m, n, l) = (m1, n1, l1)"
      by (cases "overrideEntry e (m, n, l)") auto
    obtain m2 n2 l2 where 2: "overrideEntry e (m, n', l') = (m2, n2, l2)"
      by (cases "overrideEntry e (m, n', l')") auto
    have "m1 = m2"
      using overrideEntry_mapping [of e m n l] overrideEntry_mapping [of e m n' l'] 1 2 by simp
    then show ?case
      using 1 2 Cons.IH [of m2 n1 l1 n2 l2] by simp
  qed
  then show ?thesis unfolding overriddenIcons_def by blast
qed

lemma overriddenIcons_Nil: "overriddenIcons [] m = m"
  by (simp add: overriddenIcons_def)

lemma overriddenIcons_Cons: "overriddenIcons (e # es) m = overriddenIcons es (overriddenBy e m)"
proof -
  obtain m1 n1 l1 where 1: "overrideEntry e (m, 0, []) = (m1, n1, l1)"
    by (cases "overrideEntry e (m, 0, [])") auto
  then have "m1 = overriddenBy e m" by (simp add: overriddenBy_def)
  then show ?thesis
    using 1 overrideLoop_mapping [of es m1 n1 l1] by (simp add: overriddenIcons_def)
qed

lemma overriddenBy_winner:
  "overriddenBy (k, TieArray (w # ws)) m =
     (if truthy (getProp m k) \<and> getProp m k \<noteq> Own (Some w) then setProp m k (Some w) else m)"
  by (simp add: overriddenBy_def overrideEntry_def)

lemma overriddenBy_skip:
  "\<not> nonEmptyArray e \<Longrightarrow> overriddenBy e m = m"
  by (cases e) (auto simp: overriddenBy_def overrideEntry_def nonEmptyArray_def
      split: tieValue.splits list.splits)

lemma applyManualOverrides_ties:
  "emojiTies (fst (applyManualOverrides src st)) = emojiTies st"
  by (cases src) (auto simp: applyManualOverrides_def split: prod.splits)

lemma applyManualOverrides_icons:
  "emojiToIcon (fst (applyManualOverrides src st)) =
     (case src of TiesObject entries \<Rightarrow> overriddenIcons entries (emojiToIcon st)
      | _ \<Rightarrow> emojiToIcon st)"
proof (cases src)
  case (TiesObject entries)
  obtain m n l where loop: "overrideLoop entries (emojiToIcon st, 0, [LogInfo FoundManualFile]) = (m, n, l)"
    by (cases "overrideLoop entries (emojiToIcon st, 0, [LogInfo FoundManualFile])") auto
  then have "m = overriddenIcons entries (emojiToIcon st)"
    using overrideLoop_mapping [of entries "emojiToIcon st" 0 "[LogInfo FoundManualFile]"] by simp
  then show ?thesis
    using TiesObject loop by (simp add: applyManualOverrides_def)
qed (simp_all add: applyManualOverrides_def)

lemma getProp_setProp_other:
  "k' \<noteq> k \<Longrightarrow> getProp (setProp m k v) k' = getProp m k'"
  by (simp add: getProp_def map_of_setProp_other)

lemma getProp_setProp_same:
  "k \<noteq> protoKey \<Longrightarrow> getProp (setProp m k v) k = Own v"
  by (simp add: getProp_def map_of_setProp)

lemma getProp_overriddenBy_other:
  "k' \<noteq> k \<Longrightarrow> getProp (overriddenBy (k, tv) m) k' = getProp m k'"
proof (cases "nonEmptyArray (k, tv)")
  case False
  then show ?thesis by (simp add: overriddenBy_skip)
next
  case True
  assume "k' \<noteq> k"
  from True obtain w ws where "tv = TieArray (w # ws)"
    by (auto simp: nonEmptyArray_def split: tieValue.splits list.splits)
  then show ?thesis
    using \<open>k' \<noteq> k\<close> by (simp add: overriddenBy_winner getProp_setProp_other)
qed

lemma keys_overriddenBy: "fst ` set m \<subseteq> fst ` set (overriddenBy e m)"
proof (cases "nonEmptyArray e")
  case False
  then show ?thesis by (simp add: overriddenBy_skip)
next
  case True
  then obtain k w ws where "e = (k, TieArray (w # ws))"
    by (cases e) (auto simp: nonEmptyArray_def split: tieValue.splits list.splits)
  then show ?thesis
    by (auto simp: overriddenBy_winner keys_setProp)
qed

lemma keys_overriddenIcons: "fst ` set m \<subseteq> fst ` set (overriddenIcons es m)"
proof (induction es arbitrary: m)
  case Nil
  show ?case by (simp add: overriddenIcons_Nil)
next
  case (Cons e es)
  from keys_overriddenBy [of m e] Cons.IH [of "overriddenBy e m"] show ?case
    unfolding overriddenIcons_Cons by blast
qed

lemma value_overriddenBy:
  assumes "map_of (overriddenBy (k', tv) m) k = Some v"
  shows "map_of m k = Some v \<or> (\<exists>w ws. k' = k \<and> tv = TieArray (w # ws) \<and> v = Some w)"
proof (cases "nonEmptyArray (k', tv)")
  case False
  then show ?thesis using assms by (simp add: overriddenBy_skip)
next
  case True
  then obtain w ws where tv: "tv = TieArray (w # ws)"
    by (auto simp: nonEmptyArray_def split: tieValue.splits list.splits)
  show ?thesis
  proof (cases "k' = k")
    case True
    with assms tv show ?thesis
      by (auto simp: overriddenBy_winner setProp_def update_conv' split: if_splits)
  next
    case False
    with assms tv show ?thesis
      by (auto simp: overriddenBy_winner map_of_setProp_other split: if_splits)
  qed
qed

lemma value_overriddenIcons:
  assumes "map_of (overriddenIcons es m) k = Some v"
  shows "map_of m k = Some v \<or> (\<exists>w ws. (k, TieArray (w # ws)) \<in> set es \<and> v = Some w)"
  using assms
proof (induction es arbitrary: m)
  case Nil
  then show ?case by (simp add: overriddenIcons_Nil)
next
  case (Cons e es)
  obtain k' tv where e: "e = (k', tv)" by (cases e)
  from Cons.prems have "map_of (overriddenIcons es (overriddenBy e m)) k = Some v"
    by (simp add: overriddenIcons_Cons)
  from Cons.IH [OF this]
  consider "map_of (overriddenBy e m) k = Some v"
    | "\<exists>w ws. (k, TieArray (w # ws)) \<in> set es \<and> v = Some w" by blast
  then show ?case
  proof cases
    case 1
    from value_overriddenBy [OF 1 [unfolded e]] e show ?thesis by auto
  next
    case 2
    then show ?thesis by auto
  qed
qed


lemmas override_defs =
  applyManualOverrides_icons overriddenIcons_Cons overriddenIcons_Nil overriddenBy_winner
  overriddenBy_skip nonEmptyArray_def truthy_def

subsection \<open>Keys of the tie records and of the mapping\<close>

text \<open>
  C10. After the resolution every key of the tie records is a key of the mapping, and
  this still holds after the manual overrides, whatever the manual file.
\<close>

theorem tied_keys_are_mapped:
  assumes "resolveConflicts conflicts = Inr st"
  shows "fst ` set (emojiTies st) \<subseteq> fst ` set (emojiToIcon st)
       \<and> fst ` set (emojiTies (fst (applyManualOverrides src st)))
           \<subseteq> fst ` set (emojiToIcon (fst (applyManualOverrides src st)))"
proof -
  from resolveLoop_keys [OF assms [unfolded resolveConflicts_def]]
  have before: "fst ` set (emojiTies st) \<subseteq> fst ` set (emojiToIcon st)" by simp
  have "fst ` set (emojiToIcon st) \<subseteq> fst ` set (emojiToIcon (fst (applyManualOverrides src st)))"
    unfolding applyManualOverrides_icons
    by (cases src) (simp_all add: keys_overriddenIcons)
  with before show ?thesis
    unfolding applyManualOverrides_ties by blast
qed

theorem tied_keys_are_mapped_witness:
  "resolveConflicts exampleConflicts = Inr exampleResolved
   \<and> fst ` set (emojiTies exampleResolved) \<subseteq> fst ` set (emojiToIcon exampleResolved)
   \<and> fst ` set (emojiTies (fst (applyManualOverrides
         (TiesObject [(plusSign, TieArray [ascii ''plus''])]) exampleResolved)))
       \<subseteq> fst ` set (emojiToIcon (fst (applyManualOverrides
         (TiesObject [(plusSign, TieArray [ascii ''plus''])]) exampleResolved)))"
  using tied_keys_are_mapped [OF exampleConflicts_resolved,
      of "TiesObject [(plusSign, TieArray [ascii ''plus''])]"]
    exampleConflicts_resolved
  by simp



subsection \<open>Where the mapped file names come from\<close>

lemma winner_is_candidate:
  assumes "C \<noteq> []"
  shows "(if filter isPrimary C \<noteq> []
          then hd (sort_key (\<lambda>c. - similarity c) (filter isPrimary C))
          else hd (sort_key altOrder C)) \<in> set C"
proof (cases "filter isPrimary C = []")
  case True
  have "sort_key altOrder C \<noteq> []"
    using assms by (simp add: sort_key_Nil_iff)
  from hd_in_set [OF this] show ?thesis using True by simp
next
  case False
  have "sort_key (\<lambda>c. - similarity c) (filter isPrimary C) \<noteq> []"
    using False by (simp add: sort_key_Nil_iff)
  from hd_in_set [OF this] show ?thesis using False by simp
qed

text \<open>
  C7, as amended. In the mapping that the resolution produces, the file name of every
  key is the file name of one of the candidates collected for that key. After the manual
  overrides a key maps either to what the resolution gave it or to the first element of
  an entry of the manual file for that key; nothing ties that element to the candidates.
\<close>

theorem mapped_name_is_candidate_or_override:
  assumes "objectInv conflicts"
    and "resolveConflicts conflicts = Inr st"
  shows "(\<forall>v. map_of (emojiToIcon st) k = Some v \<longrightarrow>
            (\<exists>C c. map_of conflicts k = Some C \<and> c \<in> set C \<and> filename c = v))
       \<and> (\<forall>v. map_of (emojiToIcon (fst (applyManualOverrides src st))) k = Some v \<longrightarrow>
            map_of (emojiToIcon st) k = Some v
            \<or> (\<exists>entries w ws. src = TiesObject entries
                  \<and> (k, TieArray (w # ws)) \<in> set entries \<and> v = Some w))"
proof (intro conjI allI impI)
  fix v assume v: "map_of (emojiToIcon st) k = Some v"
  show "\<exists>C c. map_of conflicts k = Some C \<and> c \<in> set C \<and> filename c = v"
  proof (cases "map_of conflicts k")
    case None
    then have "k \<notin> fst ` set conflicts" by (simp add: map_of_eq_None_iff)
    from resolveConflicts_absent(1) [OF assms(2) this] v show ?thesis by simp
  next
    case (Some C)
    note present = resolveConflicts_present [OF assms Some]
    let ?w = "if filter isPrimary C \<noteq> []
              then hd (sort_key (\<lambda>c. - similarity c) (filter isPrimary C))
              else hd (sort_key altOrder C)"
    have "filename ?w = v" using present(2) v by simp
    moreover have "?w \<in> set C" by (rule winner_is_candidate [OF present(1)])
    ultimately show ?thesis using Some by blast
  qed
next
  fix v assume v: "map_of (emojiToIcon (fst (applyManualOverrides src st))) k = Some v"
  show "map_of (emojiToIcon st) k = Some v
        \<or> (\<exists>entries w ws. src = TiesObject entries
              \<and> (k, TieArray (w # ws)) \<in> set entries \<and> v = Some w)"
  proof (cases src)
    case (TiesObject entries)
    with v have "map_of (overriddenIcons entries (emojiToIcon st)) k = Some v"
      by (simp add: applyManualOverrides_icons)
    from value_overriddenIcons [OF this] TiesObject show ?thesis by blast
  qed (use v in \<open>simp_all add: applyManualOverrides_icons\<close>)
qed

theorem mapped_name_is_candidate_or_override_witness:
  "objectInv exampleConflicts
   \<and> resolveConflicts exampleConflicts = Inr exampleResolved
   \<and> map_of (emojiToIcon exampleResolved) plusSign = Some (Some (ascii ''add''))
   \<and> (\<exists>C c. map_of exampleConflicts plusSign = Some C \<and> c \<in> set C
         \<and> filename c = Some (ascii ''add''))
   \<and> map_of (emojiToIcon (fst (applyManualOverrides
         (TiesObject [(plusSign, TieArray [ascii ''plus''])]) exampleResolved))) plusSign
       = Some (Some (ascii ''plus''))
   \<and> (map_of (emojiToIcon exampleResolved) plusSign = Some (Some (ascii ''plus''))
       \<or> (\<exists>entries w ws. TiesObject [(plusSign, TieArray [ascii ''plus''])] = TiesObject entries
             \<and> (plusSign, TieArray (w # ws)) \<in> set entries \<and> Some (ascii ''plus'') = Some w))"
proof -
  let ?src = "TiesObject [(plusSign, TieArray [ascii ''plus''])]"
  have before: "map_of (emojiToIcon exampleResolved) plusSign = Some (Some (ascii ''add''))"
    by (simp add: example_defs)
  have after: "map_of (emojiToIcon (fst (applyManualOverrides ?src exampleResolved))) plusSign
       = Some (Some (ascii ''plus''))"
    by (simp add: example_defs object_defs override_defs)
  note thm1 = mapped_name_is_candidate_or_override
      [OF exampleConflicts_inv exampleConflicts_resolved, of plusSign ?src]
  from thm1 before
  have 1: "\<exists>C c. map_of exampleConflicts plusSign = Some C \<and> c \<in> set C
         \<and> filename c = Some (ascii ''add'')"
    by blast
  from thm1 after
  have 2: "map_of (emojiToIcon exampleResolved) plusSign = Some (Some (ascii ''plus''))
       \<or> (\<exists>entries w ws. ?src = TiesObject entries
             \<and> (plusSign, TieArray (w # ws)) \<in> set entries \<and> Some (ascii ''plus'') = Some w)"
    by blast
  show ?thesis
    using exampleConflicts_inv exampleConflicts_resolved before 1 after 2
    by (intro conjI)
qed

text \<open>
  The claim as the specification words it fails after an override: the manual file puts
  \<^verbatim>\<open>minus\<close> on the plus sign, which no candidate of the plus sign carries.
\<close>

theorem override_winner_outside_conflict_set:
  "resolveConflicts exampleConflicts = Inr exampleResolved
   \<and> map_of exampleConflicts plusSign = Some plusCandidates
   \<and> map_of (emojiToIcon (fst (applyManualOverrides
         (TiesObject [(plusSign, TieArray [ascii ''minus''])]) exampleResolved))) plusSign
       = Some (Some (ascii ''minus''))
   \<and> Some (ascii ''minus'') \<notin> filename ` set plusCandidates"
proof -
  have 1: "map_of exampleConflicts plusSign = Some plusCandidates"
    by (simp add: exampleConflicts_def plusSign_def largeCircle_def pageFacingUp_def)
  have 2: "map_of (emojiToIcon (fst (applyManualOverrides
         (TiesObject [(plusSign, TieArray [ascii ''minus''])]) exampleResolved))) plusSign
       = Some (Some (ascii ''minus''))"
    by (simp add: example_defs object_defs override_defs)
  have 3: "Some (ascii ''minus'') \<notin> filename ` set plusCandidates"
    by (simp add: example_defs)
  show ?thesis using exampleConflicts_resolved 1 2 3 by (intro conjI)
qed


subsection \<open>Applying the manual file twice\<close>

lemma overriddenBy_quiet_iff:
  "overriddenBy (k, TieArray (w # ws)) m = m \<longleftrightarrow>
     k = protoKey \<or> \<not> truthy (getProp m k) \<or> getProp m k = Own (Some w)"
proof (cases "truthy (getProp m k) \<and> getProp m k \<noteq> Own (Some w)")
  case False
  then show ?thesis by (auto simp: overriddenBy_winner)
next
  case True
  show ?thesis
  proof (cases "k = protoKey")
    case True
    then show ?thesis by (simp add: overriddenBy_winner setProp_def)
  next
    case False
    have "setProp m k (Some w) \<noteq> m"
    proof
      assume "setProp m k (Some w) = m"
      then have "getProp (setProp m k (Some w)) k = getProp m k" by simp
      with False True show False by (simp add: getProp_setProp_same)
    qed
    with True False show ?thesis by (simp add: overriddenBy_winner)
  qed
qed

lemma overriddenBy_idem: "overriddenBy e (overriddenBy e m) = overriddenBy e m"
proof (cases "nonEmptyArray e")
  case False
  then show ?thesis by (simp add: overriddenBy_skip)
next
  case True
  then obtain k w ws where e: "e = (k, TieArray (w # ws))"
    by (cases e) (auto simp: nonEmptyArray_def split: tieValue.splits list.splits)
  show ?thesis
  proof (cases "truthy (getProp m k) \<and> getProp m k \<noteq> Own (Some w)")
    case False
    then have "overriddenBy e m = m" unfolding e by (auto simp: overriddenBy_winner)
    then show ?thesis by simp
  next
    case True
    then have step: "overriddenBy e m = setProp m k (Some w)"
      unfolding e by (simp add: overriddenBy_winner)
    have "overriddenBy (k, TieArray (w # ws)) (setProp m k (Some w)) = setProp m k (Some w)"
      unfolding overriddenBy_quiet_iff by (cases "k = protoKey") (simp_all add: getProp_setProp_same)
    then show ?thesis unfolding step unfolding e .
  qed
qed

lemma overriddenBy_quiet_other:
  assumes "k' \<noteq> k" "overriddenBy (k, tv) m = m"
  shows "overriddenBy (k, tv) (overriddenBy (k', tv') m) = overriddenBy (k', tv') m"
proof (cases "nonEmptyArray (k, tv)")
  case False
  then show ?thesis by (simp add: overriddenBy_skip)
next
  case True
  then obtain w ws where tv: "tv = TieArray (w # ws)"
    by (auto simp: nonEmptyArray_def split: tieValue.splits list.splits)
  have same: "getProp (overriddenBy (k', tv') m) k = getProp m k"
    using assms(1) by (simp add: getProp_overriddenBy_other)
  from assms(2) show ?thesis
    unfolding tv overriddenBy_quiet_iff same .
qed

lemma overriddenIcons_quiet_other:
  assumes "k \<notin> fst ` set es" "overriddenBy (k, tv) m = m"
  shows "overriddenBy (k, tv) (overriddenIcons es m) = overriddenIcons es m"
  using assms
proof (induction es arbitrary: m)
  case Nil
  then show ?case by (simp add: overriddenIcons_Nil)
next
  case (Cons e es)
  obtain k' tv' where e: "e = (k', tv')" by (cases e)
  have "k' \<noteq> k" using Cons.prems(1) e by auto
  from overriddenBy_quiet_other [OF this Cons.prems(2)]
  have "overriddenBy (k, tv) (overriddenBy e m) = overriddenBy e m" unfolding e .
  moreover have "k \<notin> fst ` set es" using Cons.prems(1) by simp
  ultimately show ?case
    unfolding overriddenIcons_Cons by (rule Cons.IH [rotated])
qed

lemma overriddenIcons_quiet_member:
  assumes "distinct (map fst es)" "e \<in> set es"
  shows "overriddenBy e (overriddenIcons es m) = overriddenIcons es m"
  using assms
proof (induction es arbitrary: m)
  case Nil
  then show ?case by simp
next
  case (Cons x es)
  show ?case
  proof (cases "e = x")
    case True
    obtain k tv where x: "x = (k, tv)" by (cases x)
    have "k \<notin> fst ` set es" using Cons.prems(1) x by simp
    from overriddenIcons_quiet_other [OF this, of tv "overriddenBy x m"] overriddenBy_idem [of x m]
    show ?thesis unfolding overriddenIcons_Cons True x by simp
  next
    case False
    then have "e \<in> set es" using Cons.prems(2) by simp
    moreover have "distinct (map fst es)" using Cons.prems(1) by simp
    ultimately show ?thesis unfolding overriddenIcons_Cons by (rule Cons.IH [rotated])
  qed
qed

lemma overriddenIcons_all_quiet:
  "(\<And>e. e \<in> set es \<Longrightarrow> overriddenBy e m = m) \<Longrightarrow> overriddenIcons es m = m"
  by (induction es) (simp_all add: overriddenIcons_Nil overriddenIcons_Cons)

lemma overriddenIcons_idem:
  assumes "distinct (map fst es)"
  shows "overriddenIcons es (overriddenIcons es m) = overriddenIcons es m"
  by (rule overriddenIcons_all_quiet) (rule overriddenIcons_quiet_member [OF assms])

lemma applyManualOverrides_state:
  "fst (applyManualOverrides src st) =
     (case src of
        TiesObject entries \<Rightarrow> st\<lparr>emojiToIcon := overriddenIcons entries (emojiToIcon st)\<rparr>
      | _ \<Rightarrow> st)"
proof (cases src)
  case (TiesObject entries)
  obtain m n l where loop: "overrideLoop entries (emojiToIcon st, 0, [LogInfo FoundManualFile]) = (m, n, l)"
    by (cases "overrideLoop entries (emojiToIcon st, 0, [LogInfo FoundManualFile])") auto
  then have "m = overriddenIcons entries (emojiToIcon st)"
    using overrideLoop_mapping [of entries "emojiToIcon st" 0 "[LogInfo FoundManualFile]"] by simp
  then show ?thesis
    using TiesObject loop by (simp add: applyManualOverrides_def)
qed (simp_all add: applyManualOverrides_def)

text \<open>
  C6. Applying a manual file to the state that its own application has left changes
  nothing: the state after two applications is the state after one. The entries of the
  file are those of an object, so no key occurs twice among them.
\<close>

theorem overrides_are_idempotent:
  assumes "\<forall>entries. src = TiesObject entries \<longrightarrow> distinct (map fst entries)"
  shows "fst (applyManualOverrides src (fst (applyManualOverrides src st)))
       = fst (applyManualOverrides src st)"
proof (cases src)
  case (TiesObject entries)
  with assms have "distinct (map fst entries)" by simp
  then show ?thesis
    unfolding applyManualOverrides_state TiesObject by (simp add: overriddenIcons_idem)
qed (simp_all add: applyManualOverrides_state)

theorem overrides_are_idempotent_witness:
  "distinct (map fst [(plusSign, TieArray [ascii ''plus'']), (ascii ''toString'', TieArray [ascii ''x''])])
   \<and> fst (applyManualOverrides
        (TiesObject [(plusSign, TieArray [ascii ''plus'']), (ascii ''toString'', TieArray [ascii ''x''])])
        (fst (applyManualOverrides
           (TiesObject [(plusSign, TieArray [ascii ''plus'']), (ascii ''toString'', TieArray [ascii ''x''])])
           exampleResolved)))
     = fst (applyManualOverrides
        (TiesObject [(plusSign, TieArray [ascii ''plus'']), (ascii ''toString'', TieArray [ascii ''x''])])
        exampleResolved)"
proof -
  have d: "distinct (map fst [(plusSign, TieArray [ascii ''plus'']), (ascii ''toString'', TieArray [ascii ''x''])])"
    by (simp add: plusSign_def ascii_def)
  then have "\<forall>entries. TiesObject [(plusSign, TieArray [ascii ''plus'']), (ascii ''toString'', TieArray [ascii ''x''])]
       = TiesObject entries \<longrightarrow> distinct (map fst entries)"
    by simp
  from overrides_are_idempotent [OF this, of exampleResolved] d show ?thesis by simp
qed


subsection \<open>Manual files of the wrong shape\<close>

lemma overrideEntry_skip: "\<not> nonEmptyArray e \<Longrightarrow> overrideEntry e s = s"
  by (cases e; cases s)
    (auto simp: overrideEntry_def nonEmptyArray_def split: tieValue.splits list.splits)

lemma overrideLoop_filter:
  "overrideLoop entries s = overrideLoop (filter nonEmptyArray entries) s"
  by (induction entries arbitrary: s) (simp_all add: overrideEntry_skip)

text \<open>
  C8, as amended. When the file parses and its \<^verbatim>\<open>ties\<close> is missing or not an object,
  one line is logged with \<^verbatim>\<open>logInfo\<close>, the state is left as it was and no override is
  counted; when the file cannot be read or parsed the line is logged with \<^verbatim>\<open>logError\<close>
  and the rest is the same. An entry of a \<^verbatim>\<open>ties\<close> object whose value is not a non-empty
  array is passed over by itself: the block does exactly what it does on the file without
  such entries. In none of these cases does the script fail where it would not without
  the file: its output on a file with invalid \<^verbatim>\<open>ties\<close> is its output without file.
\<close>

theorem invalid_manual_file_is_skipped:
  "applyManualOverrides TiesInvalid st = (st, 0, [LogInfo InvalidFormat])
   \<and> applyManualOverrides FileUnreadable st = (st, 0, [LogError ErrorReadingManualFile])
   \<and> applyManualOverrides (TiesObject entries) st
       = applyManualOverrides (TiesObject (filter nonEmptyArray entries)) st
   \<and> createEmojiToIconMapping P clock assignments TiesInvalid
       = createEmojiToIconMapping P clock assignments FileMissing
   \<and> createEmojiToIconMapping P clock assignments FileUnreadable
       = createEmojiToIconMapping P clock assignments FileMissing"
proof (intro conjI)
  show "applyManualOverrides (TiesObject entries) st
       = applyManualOverrides (TiesObject (filter nonEmptyArray entries)) st"
    unfolding applyManualOverrides_def using overrideLoop_filter [of entries] by simp
  have same: "writeOutputs P clock n (s, 0, l) = writeOutputs P clock n (s, 0, l')" for n s l l'
    by (cases clock) (simp add: writeOutputs_def)
  show "createEmojiToIconMapping P clock assignments TiesInvalid
       = createEmojiToIconMapping P clock assignments FileMissing"
    unfolding createEmojiToIconMapping_def applyManualOverrides_def
    by (auto split: sum.splits intro: same)
  show "createEmojiToIconMapping P clock assignments FileUnreadable
       = createEmojiToIconMapping P clock assignments FileMissing"
    unfolding createEmojiToIconMapping_def applyManualOverrides_def
    by (auto split: sum.splits intro: same)
qed (simp_all add: applyManualOverrides_def)

text \<open>
  The claim as the specification words it fails on a file that is not a mapping to
  non-empty sequences because one of its entries is an empty array: the other entry is
  applied all the same.
\<close>

theorem partly_invalid_file_is_applied:
  "\<not> nonEmptyArray (largeCircle, TieArray [])
   \<and> map_of (emojiToIcon exampleResolved) plusSign = Some (Some (ascii ''add''))
   \<and> map_of (emojiToIcon (fst (applyManualOverrides
         (TiesObject [(plusSign, TieArray [ascii ''plus'']), (largeCircle, TieArray [])])
         exampleResolved))) plusSign
       = Some (Some (ascii ''plus''))"
  by (simp add: example_defs object_defs override_defs)

subsection \<open>Overrides and the truthiness test\<close>

text \<open>
  C3, evaluated where the code departs from it. The loop tests \<^verbatim>\<open>emojiToIcon[emoji]\<close>
  for truthiness where the claim speaks of the key being present. First, the icon of the
  plus sign has the empty file name: the key is present, the manual file names
  \<^verbatim>\<open>plus\<close>, and the mapping keeps the empty name. Second, the manual file names the
  key \<^verbatim>\<open>toString\<close>, which the mapping lacks: the read finds the function that
  \<^verbatim>\<open>Object.prototype\<close> holds, and the write creates the key. In both the tie records
  stay as they were. Where the current winner is a non-empty string, and where the key
  is absent and not a name of \<^verbatim>\<open>Object.prototype\<close>, the loop does what the claim says
  (\<open>overriddenIcons_nominal\<close> below).
\<close>

theorem override_tests_truthiness_not_presence:
  "resolveConflicts [(plusSign, [candidate [] 0.9 True None])]
     = Inr \<lparr>emojiToIcon = [(plusSign, Some [])], emojiTies = []\<rparr>
   \<and> applyManualOverrides (TiesObject [(plusSign, TieArray [ascii ''plus''])])
         \<lparr>emojiToIcon = [(plusSign, Some [])], emojiTies = []\<rparr>
     = (\<lparr>emojiToIcon = [(plusSign, Some [])], emojiTies = []\<rparr>, 0,
        [LogInfo FoundManualFile, LogInfo (AppliedOverrides 0)])
   \<and> map_of (emojiToIcon exampleResolved) (ascii ''toString'') = None
   \<and> fst (applyManualOverrides (TiesObject [(ascii ''toString'', TieArray [ascii ''plus''])])
         exampleResolved)
     = exampleResolved\<lparr>emojiToIcon :=
         emojiToIcon exampleResolved @ [(ascii ''toString'', Some (ascii ''plus''))]\<rparr>"
proof (intro conjI)
  show "resolveConflicts [(plusSign, [candidate [] 0.9 True None])]
     = Inr \<lparr>emojiToIcon = [(plusSign, Some [])], emojiTies = []\<rparr>"
    by (simp add: example_defs object_defs resolveConflicts_def resolveEntry_def)
  show "applyManualOverrides (TiesObject [(plusSign, TieArray [ascii ''plus''])])
         \<lparr>emojiToIcon = [(plusSign, Some [])], emojiTies = []\<rparr>
     = (\<lparr>emojiToIcon = [(plusSign, Some [])], emojiTies = []\<rparr>, 0,
        [LogInfo FoundManualFile, LogInfo (AppliedOverrides 0)])"
    by (simp add: applyManualOverrides_def overrideEntry_def truthy_def getProp_def plusSign_def)
  show "map_of (emojiToIcon exampleResolved) (ascii ''toString'') = None"
    by (simp add: example_defs)
  show "fst (applyManualOverrides (TiesObject [(ascii ''toString'', TieArray [ascii ''plus''])])
         exampleResolved)
     = exampleResolved\<lparr>emojiToIcon :=
         emojiToIcon exampleResolved @ [(ascii ''toString'', Some (ascii ''plus''))]\<rparr>"
    by (simp add: applyManualOverrides_state overriddenIcons_Cons overriddenIcons_Nil
        overriddenBy_winner truthy_def example_defs object_defs)
qed


subsection \<open>The collection loop\<close>

lemma protoKey_protoName: "protoKey \<in> set protoNames"
  by (simp add: protoKey_def protoNames_def)

lemma pushCandidate_eq:
  assumes "fst ` set cs \<inter> set protoNames = {}"
  shows "pushCandidate cs k c =
     (if k \<in> set protoNames then Inl TypeError
      else Inr (AList.update k ((case map_of cs k of None \<Rightarrow> [] | Some C \<Rightarrow> C) @ [c]) cs))"
proof (cases "k \<in> set protoNames")
  case True
  then have "k \<notin> fst ` set cs" using assms by blast
  then have "map_of cs k = None" by (simp add: map_of_eq_None_iff)
  with True show ?thesis by (simp add: pushCandidate_def getProp_def)
next
  case False
  then have k: "k \<noteq> protoKey" using protoKey_protoName by blast
  show ?thesis
  proof (cases "map_of cs k")
    case None
    with False k show ?thesis
      by (simp add: pushCandidate_def getProp_def setProp_def update_conv')
  next
    case (Some C)
    with False k show ?thesis
      by (simp add: pushCandidate_def getProp_def setProp_def)
  qed
qed

lemma pushCandidate_inv:
  assumes "fst ` set cs \<inter> set protoNames = {}" "pushCandidate cs k c = Inr cs'"
  shows "fst ` set cs' \<inter> set protoNames = {}"
    and "distinct (map fst cs) \<Longrightarrow> distinct (map fst cs')"
    and "\<exists>C'. map_of cs' k = Some C' \<and> c \<in> set C'"
    and "map_of cs k0 = Some C \<Longrightarrow> \<exists>C'. map_of cs' k0 = Some C' \<and> set C \<subseteq> set C'"
proof -
  from assms(2) have k: "k \<notin> set protoNames"
    and cs': "cs' = AList.update k ((case map_of cs k of None \<Rightarrow> [] | Some C \<Rightarrow> C) @ [c]) cs"
    unfolding pushCandidate_eq [OF assms(1)] by (simp_all split: if_splits)
  show "fst ` set cs' \<inter> set protoNames = {}"
    using assms(1) k unfolding cs' by (simp add: dom_update)
  show "distinct (map fst cs) \<Longrightarrow> distinct (map fst cs')"
    unfolding cs' by (simp add: distinct_update)
  show "\<exists>C'. map_of cs' k = Some C' \<and> c \<in> set C'"
    unfolding cs' by (simp add: update_conv')
  show "map_of cs k0 = Some C \<Longrightarrow> \<exists>C'. map_of cs' k0 = Some C' \<and> set C \<subseteq> set C'"
    unfolding cs' by (cases "k0 = k") (auto simp: update_conv')
qed

lemma processMappings_fail:
  assumes "fst ` set cs \<inter> set protoNames = {}" "\<exists>m \<in> set ms. fst m \<in> set protoNames"
  shows "processMappings ms a cs = Inl TypeError"
  using assms
proof (induction ms arbitrary: cs)
  case Nil
  then show ?case by simp
next
  case (Cons m ms)
  obtain k p i where m: "m = (k, p, i)" by (cases m)
  show ?case
  proof (cases "k \<in> set protoNames")
    case True
    then show ?thesis unfolding m by (simp add: pushCandidate_eq [OF Cons.prems(1)])
  next
    case False
    then have rest: "\<exists>m \<in> set ms. fst m \<in> set protoNames" using Cons.prems(2) m by auto
    let ?c = "\<lparr>filename = Assignment.filename a, similarity = Assignment.similarity a,
               isPrimary = p, altIndex = i\<rparr>"
    obtain cs' where push: "pushCandidate cs k ?c = Inr cs'"
      using False by (simp add: pushCandidate_eq [OF Cons.prems(1)])
    from Cons.IH [OF pushCandidate_inv(1) [OF Cons.prems(1) push] rest] push
    show ?thesis unfolding m by simp
  qed
qed

lemma processMappings_ok:
  assumes "fst ` set cs \<inter> set protoNames = {}" "\<forall>m \<in> set ms. fst m \<notin> set protoNames"
  shows "\<exists>cs'. processMappings ms a cs = Inr cs'
       \<and> fst ` set cs' \<inter> set protoNames = {}
       \<and> (distinct (map fst cs) \<longrightarrow> distinct (map fst cs'))
       \<and> (\<forall>k0 C. map_of cs k0 = Some C \<longrightarrow> (\<exists>C'. map_of cs' k0 = Some C' \<and> set C \<subseteq> set C'))
       \<and> (\<forall>k p i. (k, p, i) \<in> set ms \<longrightarrow>
            (\<exists>C'. map_of cs' k = Some C'
               \<and> \<lparr>filename = Assignment.filename a, similarity = Assignment.similarity a,
                   isPrimary = p, altIndex = i\<rparr> \<in> set C'))"
  using assms
proof (induction ms arbitrary: cs)
  case Nil
  then show ?case by simp
next
  case (Cons m ms)
  obtain k p i where m: "m = (k, p, i)" by (cases m)
  let ?c = "\<lparr>filename = Assignment.filename a, similarity = Assignment.similarity a,
             isPrimary = p, altIndex = i\<rparr>"
  have "k \<notin> set protoNames" using Cons.prems(2) m by simp
  then obtain cs1 where push: "pushCandidate cs k ?c = Inr cs1"
    by (simp add: pushCandidate_eq [OF Cons.prems(1)])
  note inv1 = pushCandidate_inv [OF Cons.prems(1) push]
  have rest: "\<forall>m \<in> set ms. fst m \<notin> set protoNames" using Cons.prems(2) by simp
  from Cons.IH [OF inv1(1) rest] obtain cs' where
    run: "processMappings ms a cs1 = Inr cs'"
    and inv: "fst ` set cs' \<inter> set protoNames = {}"
    and dist: "distinct (map fst cs1) \<longrightarrow> distinct (map fst cs')"
    and keep: "\<forall>k0 C. map_of cs1 k0 = Some C \<longrightarrow> (\<exists>C'. map_of cs' k0 = Some C' \<and> set C \<subseteq> set C')"
    and new: "\<forall>k p i. (k, p, i) \<in> set ms \<longrightarrow>
            (\<exists>C'. map_of cs' k = Some C'
               \<and> \<lparr>filename = Assignment.filename a, similarity = Assignment.similarity a,
                   isPrimary = p, altIndex = i\<rparr> \<in> set C')"
    by blast
  have 1: "processMappings (m # ms) a cs = Inr cs'" using push run unfolding m by simp
  have 2: "distinct (map fst cs) \<longrightarrow> distinct (map fst cs')" using inv1(2) dist by blast
  have 3: "\<forall>k0 C. map_of cs k0 = Some C \<longrightarrow> (\<exists>C'. map_of cs' k0 = Some C' \<and> set C \<subseteq> set C')"
  proof (intro allI impI)
    fix k0 C assume "map_of cs k0 = Some C"
    from inv1(4) [OF this] obtain C1 where "map_of cs1 k0 = Some C1" "set C \<subseteq> set C1" by blast
    with keep show "\<exists>C'. map_of cs' k0 = Some C' \<and> set C \<subseteq> set C'" by (meson subset_trans)
  qed
  have 4: "\<forall>k' p' i'. (k', p', i') \<in> set (m # ms) \<longrightarrow>
            (\<exists>C'. map_of cs' k' = Some C'
               \<and> \<lparr>filename = Assignment.filename a, similarity = Assignment.similarity a,
                   isPrimary = p', altIndex = i'\<rparr> \<in> set C')"
  proof (intro allI impI)
    fix k' p' i' assume mem: "(k', p', i') \<in> set (m # ms)"
    show "\<exists>C'. map_of cs' k' = Some C'
               \<and> \<lparr>filename = Assignment.filename a, similarity = Assignment.similarity a,
                   isPrimary = p', altIndex = i'\<rparr> \<in> set C'"
    proof (cases "(k', p', i') = m")
      case True
      then have eq: "k' = k" "p' = p" "i' = i" using m by simp_all
      from inv1(3) obtain C1 where "map_of cs1 k = Some C1" "?c \<in> set C1" by blast
      with keep show ?thesis unfolding eq by blast
    next
      case False
      with mem new show ?thesis by simp
    qed
  qed
  from 1 inv 2 3 4 show ?case by blast
qed


lemma collectLoop_fail:
  assumes "fst ` set cs \<inter> set protoNames = {}"
    and "\<exists>a \<in> set as. \<exists>m \<in> set (mappingsOf a). fst m \<in> set protoNames"
  shows "collectLoop as (cs, n) = Inl TypeError"
  using assms
proof (induction as arbitrary: cs n)
  case Nil
  then show ?case by simp
next
  case (Cons a as)
  show ?case
  proof (cases "\<exists>m \<in> set (mappingsOf a). fst m \<in> set protoNames")
    case True
    from processMappings_fail [OF Cons.prems(1) True] show ?thesis by simp
  next
    case False
    then have ok: "\<forall>m \<in> set (mappingsOf a). fst m \<notin> set protoNames" by blast
    from processMappings_ok [OF Cons.prems(1) ok, of a] obtain cs1 where
      run: "processMappings (mappingsOf a) a cs = Inr cs1"
      and inv: "fst ` set cs1 \<inter> set protoNames = {}" by blast
    have "\<exists>a \<in> set as. \<exists>m \<in> set (mappingsOf a). fst m \<in> set protoNames"
      using Cons.prems(2) False by auto
    from Cons.IH [OF inv this] run show ?thesis by simp
  qed
qed

lemma collectLoop_ok:
  assumes "fst ` set cs \<inter> set protoNames = {}"
    and "\<forall>a \<in> set as. \<forall>m \<in> set (mappingsOf a). fst m \<notin> set protoNames"
  shows "\<exists>cs' n'. collectLoop as (cs, n) = Inr (cs', n')
       \<and> fst ` set cs' \<inter> set protoNames = {}
       \<and> (distinct (map fst cs) \<longrightarrow> distinct (map fst cs'))
       \<and> (\<forall>k0 C. map_of cs k0 = Some C \<longrightarrow> (\<exists>C'. map_of cs' k0 = Some C' \<and> set C \<subseteq> set C'))
       \<and> (\<forall>a k p i. a \<in> set as \<and> (k, p, i) \<in> set (mappingsOf a) \<longrightarrow>
            (\<exists>C'. map_of cs' k = Some C'
               \<and> \<lparr>filename = Assignment.filename a, similarity = Assignment.similarity a,
                   isPrimary = p, altIndex = i\<rparr> \<in> set C'))"
  using assms
proof (induction as arbitrary: cs n)
  case Nil
  then show ?case by simp
next
  case (Cons a as)
  have ok: "\<forall>m \<in> set (mappingsOf a). fst m \<notin> set protoNames" using Cons.prems(2) by simp
  from processMappings_ok [OF Cons.prems(1) ok, of a] obtain cs1 where
    run1: "processMappings (mappingsOf a) a cs = Inr cs1"
    and inv1: "fst ` set cs1 \<inter> set protoNames = {}"
    and dist1: "distinct (map fst cs) \<longrightarrow> distinct (map fst cs1)"
    and keep1: "\<forall>k0 C. map_of cs k0 = Some C \<longrightarrow> (\<exists>C'. map_of cs1 k0 = Some C' \<and> set C \<subseteq> set C')"
    and new1: "\<forall>k p i. (k, p, i) \<in> set (mappingsOf a) \<longrightarrow>
            (\<exists>C'. map_of cs1 k = Some C'
               \<and> \<lparr>filename = Assignment.filename a, similarity = Assignment.similarity a,
                   isPrimary = p, altIndex = i\<rparr> \<in> set C')"
    by blast
  have rest: "\<forall>a \<in> set as. \<forall>m \<in> set (mappingsOf a). fst m \<notin> set protoNames"
    using Cons.prems(2) by simp
  from Cons.IH [OF inv1 rest, of "n + length (mappingsOf a)"] obtain cs' n' where
    run: "collectLoop as (cs1, n + length (mappingsOf a)) = Inr (cs', n')"
    and inv: "fst ` set cs' \<inter> set protoNames = {}"
    and dist: "distinct (map fst cs1) \<longrightarrow> distinct (map fst cs')"
    and keep: "\<forall>k0 C. map_of cs1 k0 = Some C \<longrightarrow> (\<exists>C'. map_of cs' k0 = Some C' \<and> set C \<subseteq> set C')"
    and new: "\<forall>a k p i. a \<in> set as \<and> (k, p, i) \<in> set (mappingsOf a) \<longrightarrow>
            (\<exists>C'. map_of cs' k = Some C'
               \<and> \<lparr>filename = Assignment.filename a, similarity = Assignment.similarity a,
                   isPrimary = p, altIndex = i\<rparr> \<in> set C')"
    by blast
  have 1: "collectLoop (a # as) (cs, n) = Inr (cs', n')" using run1 run by simp
  have 2: "distinct (map fst cs) \<longrightarrow> distinct (map fst cs')" using dist1 dist by blast
  have 3: "\<forall>k0 C. map_of cs k0 = Some C \<longrightarrow> (\<exists>C'. map_of cs' k0 = Some C' \<and> set C \<subseteq> set C')"
  proof (intro allI impI)
    fix k0 C assume "map_of cs k0 = Some C"
    with keep1 obtain C1 where "map_of cs1 k0 = Some C1" "set C \<subseteq> set C1" by blast
    with keep show "\<exists>C'. map_of cs' k0 = Some C' \<and> set C \<subseteq> set C'" by (meson subset_trans)
  qed
  have 4: "\<forall>b k p i. b \<in> set (a # as) \<and> (k, p, i) \<in> set (mappingsOf b) \<longrightarrow>
            (\<exists>C'. map_of cs' k = Some C'
               \<and> \<lparr>filename = Assignment.filename b, similarity = Assignment.similarity b,
                   isPrimary = p, altIndex = i\<rparr> \<in> set C')"
  proof (intro allI impI)
    fix b k p i assume mem: "b \<in> set (a # as) \<and> (k, p, i) \<in> set (mappingsOf b)"
    show "\<exists>C'. map_of cs' k = Some C'
               \<and> \<lparr>filename = Assignment.filename b, similarity = Assignment.similarity b,
                   isPrimary = p, altIndex = i\<rparr> \<in> set C'"
    proof (cases "b \<in> set as")
      case True
      with mem new show ?thesis by blast
    next
      case False
      with mem have b: "b = a" by simp
      with mem new1 obtain C1 where "map_of cs1 k = Some C1"
        "\<lparr>filename = Assignment.filename b, similarity = Assignment.similarity b,
           isPrimary = p, altIndex = i\<rparr> \<in> set C1"
        by blast
      with keep show ?thesis by blast
    qed
  qed
  from 1 inv 2 3 4 show ?case by blast
qed

lemma collect_objectInv:
  assumes "collect as = Inr (cs, n)"
  shows "objectInv cs"
proof -
  have start: "fst ` set ([] :: ConflictCandidate list jsobject) \<inter> set protoNames = {}" by simp
  have ok: "\<forall>a \<in> set as. \<forall>m \<in> set (mappingsOf a). fst m \<notin> set protoNames"
  proof (rule ccontr)
    assume "\<not> ?thesis"
    then have "\<exists>a \<in> set as. \<exists>m \<in> set (mappingsOf a). fst m \<in> set protoNames" by blast
    from collectLoop_fail [OF start this, of 0] assms show False by (simp add: collect_def)
  qed
  from collectLoop_ok [OF start ok, of 0] assms
  have "fst ` set cs \<inter> set protoNames = {}" and "distinct (map fst cs)"
    by (auto simp: collect_def)
  then show ?thesis
    unfolding objectInv_def using protoKey_protoName by blast
qed

lemma mappingsOf_filename: "mappingsOf (a\<lparr>Assignment.filename := f\<rparr>) = mappingsOf a"
  by (simp add: mappingsOf_def)

lemma set_update_subset: "set (AList.update k v al) \<subseteq> insert (k, v) (set al)"
  by (induction al) auto

lemma pushCandidate_nonempty:
  assumes "fst ` set cs \<inter> set protoNames = {}" "pushCandidate cs k c = Inr cs'"
    and "\<forall>p \<in> set cs. snd p \<noteq> []"
  shows "\<forall>p \<in> set cs'. snd p \<noteq> []"
proof -
  from assms(2) have
    cs': "cs' = AList.update k ((case map_of cs k of None \<Rightarrow> [] | Some C \<Rightarrow> C) @ [c]) cs"
    unfolding pushCandidate_eq [OF assms(1)] by (simp split: if_splits)
  show ?thesis
    using assms(3) set_update_subset [of k _ cs] unfolding cs' by fastforce
qed

lemma processMappings_nonempty:
  assumes "processMappings ms a cs = Inr cs'"
    and "fst ` set cs \<inter> set protoNames = {}"
    and "\<forall>p \<in> set cs. snd p \<noteq> []"
  shows "fst ` set cs' \<inter> set protoNames = {} \<and> (\<forall>p \<in> set cs'. snd p \<noteq> [])"
  using assms
proof (induction ms arbitrary: cs)
  case Nil
  then show ?case by simp
next
  case (Cons m ms)
  obtain k p i where m: "m = (k, p, i)" by (cases m)
  from Cons.prems(1) obtain cs1 where
    push: "pushCandidate cs k \<lparr>filename = Assignment.filename a,
             similarity = Assignment.similarity a, isPrimary = p, altIndex = i\<rparr> = Inr cs1"
    and rest: "processMappings ms a cs1 = Inr cs'"
    unfolding m by (auto split: sum.splits)
  from Cons.IH [OF rest pushCandidate_inv(1) [OF Cons.prems(2) push]
      pushCandidate_nonempty [OF Cons.prems(2) push Cons.prems(3)]]
  show ?case .
qed

lemma collectLoop_nonempty:
  assumes "collectLoop as (cs, n) = Inr (cs', n')"
    and "fst ` set cs \<inter> set protoNames = {}"
    and "\<forall>p \<in> set cs. snd p \<noteq> []"
  shows "\<forall>p \<in> set cs'. snd p \<noteq> []"
  using assms
proof (induction as arbitrary: cs n)
  case Nil
  then show ?case by simp
next
  case (Cons a as)
  from Cons.prems(1) obtain cs1 where
    step: "processMappings (mappingsOf a) a cs = Inr cs1"
    and rest: "collectLoop as (cs1, n + length (mappingsOf a)) = Inr (cs', n')"
    by (auto split: sum.splits)
  from processMappings_nonempty [OF step Cons.prems(2) Cons.prems(3)]
  have "fst ` set cs1 \<inter> set protoNames = {}" and "\<forall>p \<in> set cs1. snd p \<noteq> []" by simp_all
  from Cons.IH [OF rest this] show ?case .
qed

lemma collect_nonempty:
  assumes "collect as = Inr (cs, n)"
  shows "\<forall>p \<in> set cs. snd p \<noteq> []"
  using collectLoop_nonempty [of as "[]" 0 cs n] assms by (simp add: collect_def)

lemma resolveLoop_succeeds:
  assumes "\<forall>p \<in> set es. snd p \<noteq> []"
  shows "\<exists>st'. resolveLoop es st = Inr st'"
  using assms
proof (induction es arbitrary: st)
  case Nil
  show ?case by simp
next
  case (Cons e es)
  obtain k C where e: "e = (k, C)" by (cases e)
  have "C \<noteq> []" using Cons.prems e by simp
  from resolveEntry_result [OF this, of k st] obtain s1 where "resolveEntry (k, C) st = Inr s1"
    by blast
  moreover have "\<exists>st'. resolveLoop es s1 = Inr st'" using Cons.IH Cons.prems by simp
  ultimately show ?case unfolding e by simp
qed

text \<open>
  On assignments of the interface's types the collection stops exactly when one of the
  keys is a name that \<^verbatim>\<open>Object.prototype\<close> defines.
\<close>

lemma collect_fails_iff:
  "(\<exists>e. collect as = Inl e) \<longleftrightarrow>
     (\<exists>a \<in> set as. \<exists>m \<in> set (mappingsOf a). fst m \<in> set protoNames)"
proof
  have start: "fst ` set ([] :: ConflictCandidate list jsobject) \<inter> set protoNames = {}" by simp
  {
    assume fail: "\<exists>e. collect as = Inl e"
    show "\<exists>a \<in> set as. \<exists>m \<in> set (mappingsOf a). fst m \<in> set protoNames"
    proof (rule ccontr)
      assume "\<not> ?thesis"
      then have "\<forall>a \<in> set as. \<forall>m \<in> set (mappingsOf a). fst m \<notin> set protoNames" by blast
      from collectLoop_ok [OF start this, of 0] fail show False by (auto simp: collect_def)
    qed
  }
  {
    assume "\<exists>a \<in> set as. \<exists>m \<in> set (mappingsOf a). fst m \<in> set protoNames"
    from collectLoop_fail [OF start this, of 0] show "\<exists>e. collect as = Inl e"
      by (simp add: collect_def)
  }
qed

lemma collect_filename_independent:
  "(\<exists>e. collect (map (\<lambda>a. a\<lparr>Assignment.filename := g a\<rparr>) as) = Inl e)
     \<longleftrightarrow> (\<exists>e. collect as = Inl e)"
  unfolding collect_fails_iff by (simp add: mappingsOf_filename)

lemma collect_holds_candidates:
  assumes "collect as = Inr (cs, n)" "a \<in> set as" "(k, p, i) \<in> set (mappingsOf a)"
  shows "\<exists>C. map_of cs k = Some C
            \<and> \<lparr>filename = Assignment.filename a, similarity = Assignment.similarity a,
                isPrimary = p, altIndex = i\<rparr> \<in> set C"
proof -
  have start: "fst ` set ([] :: ConflictCandidate list jsobject) \<inter> set protoNames = {}" by simp
  have ok: "\<forall>a \<in> set as. \<forall>m \<in> set (mappingsOf a). fst m \<notin> set protoNames"
    using collect_fails_iff [of as] assms(1) by auto
  from collectLoop_ok [OF start ok, of 0] assms show ?thesis
    by (auto simp: collect_def)
qed

lemma collect_then_resolve:
  assumes "collect as = Inr (cs, n)"
  shows "\<exists>st. resolveConflicts cs = Inr st
       \<and> (\<forall>k C. map_of cs k = Some C \<longrightarrow>
            (\<exists>c \<in> set C. map_of (emojiToIcon st) k = Some (filename c)))"
proof -
  have inv: "objectInv cs" using assms by (rule collect_objectInv)
  have "\<forall>p \<in> set (ownEntries cs). snd p \<noteq> []"
    using collect_nonempty [OF assms] by (simp add: set_ownEntries)
  from resolveLoop_succeeds [OF this] obtain st where run: "resolveConflicts cs = Inr st"
    unfolding resolveConflicts_def by blast
  have "\<exists>c \<in> set C. map_of (emojiToIcon st) k = Some (filename c)"
    if key: "map_of cs k = Some C" for k C
    using resolveConflicts_present(2) [OF inv run key]
      winner_is_candidate [OF resolveConflicts_present(1) [OF inv run key]]
    by blast
  with run show ?thesis by blast
qed

text \<open>
  C5, as amended. The collection pass does not look at the file name: whether it
  completes is the same whatever file names the assignments carry, or lack. When it
  completes, every key of every assignment has a candidate list holding the candidate of
  that assignment, with the file name of the assignment, absent if the assignment has
  none; and the resolution proceeds on what was collected: it completes and maps every
  key to the file name, absent or not, of one of the candidates of the key.
\<close>

theorem collection_does_not_check_filename:
  "((\<exists>e. collect (map (\<lambda>a. a\<lparr>Assignment.filename := g a\<rparr>) as) = Inl e)
      \<longleftrightarrow> (\<exists>e. collect as = Inl e))
   \<and> (\<forall>cs n a k p i.
         collect as = Inr (cs, n) \<and> a \<in> set as \<and> (k, p, i) \<in> set (mappingsOf a) \<longrightarrow>
         (\<exists>C. map_of cs k = Some C
            \<and> \<lparr>filename = Assignment.filename a, similarity = Assignment.similarity a,
                isPrimary = p, altIndex = i\<rparr> \<in> set C))
   \<and> (\<forall>cs n. collect as = Inr (cs, n) \<longrightarrow>
         (\<exists>st. resolveConflicts cs = Inr st
            \<and> (\<forall>k C. map_of cs k = Some C \<longrightarrow>
                 (\<exists>c \<in> set C. map_of (emojiToIcon st) k = Some (filename c)))))"
  using collect_filename_independent [of g as] collect_holds_candidates [of as]
    collect_then_resolve [of as]
  by blast

lemmas collect_defs =
  collect_def mappingsOf_def pushCandidate_def trimIsEmpty_def isWhiteSpace_def

lemma unnamed_collected: "collect [unnamedProposal] = Inr ([(plusSign, [unnamedCandidate])], 1)"
  by (simp add: collect_defs object_defs unnamedProposal_def unnamedCandidate_def example_defs)

lemma unnamed_resolved:
  "resolveConflicts [(plusSign, [unnamedCandidate])]
     = Inr \<lparr>emojiToIcon = [(plusSign, None)], emojiTies = []\<rparr>"
  by (simp add: resolveConflicts_def resolveEntry_def object_defs unnamedCandidate_def example_defs)

theorem collection_does_not_check_filename_witness:
  "collect [unnamedProposal] = Inr ([(plusSign, [unnamedCandidate])], 1)
   \<and> unnamedProposal \<in> set [unnamedProposal]
   \<and> (plusSign, True, None) \<in> set (mappingsOf unnamedProposal)
   \<and> Assignment.filename unnamedProposal = None
   \<and> (\<exists>C. map_of [(plusSign, [unnamedCandidate])] plusSign = Some C
         \<and> \<lparr>filename = Assignment.filename unnamedProposal,
             similarity = Assignment.similarity unnamedProposal,
             isPrimary = True, altIndex = None\<rparr> \<in> set C)
   \<and> (\<exists>st. resolveConflicts [(plusSign, [unnamedCandidate])] = Inr st
         \<and> (\<forall>k C. map_of [(plusSign, [unnamedCandidate])] k = Some C \<longrightarrow>
              (\<exists>c \<in> set C. map_of (emojiToIcon st) k = Some (filename c))))"
proof -
  have m: "(plusSign, True, None) \<in> set (mappingsOf unnamedProposal)"
    by (simp add: mappingsOf_def unnamedProposal_def plusSign_def)
  have a: "unnamedProposal \<in> set [unnamedProposal]" by simp
  have f: "Assignment.filename unnamedProposal = None" by (simp add: unnamedProposal_def)
  note t = collection_does_not_check_filename [of _ "[unnamedProposal]"]
  from t unnamed_collected a m
  have 1: "\<exists>C. map_of [(plusSign, [unnamedCandidate])] plusSign = Some C
         \<and> \<lparr>filename = Assignment.filename unnamedProposal,
             similarity = Assignment.similarity unnamedProposal,
             isPrimary = True, altIndex = None\<rparr> \<in> set C"
    by blast
  from t unnamed_collected
  have 2: "\<exists>st. resolveConflicts [(plusSign, [unnamedCandidate])] = Inr st
         \<and> (\<forall>k C. map_of [(plusSign, [unnamedCandidate])] k = Some C \<longrightarrow>
              (\<exists>c \<in> set C. map_of (emojiToIcon st) k = Some (filename c)))"
    by blast
  from unnamed_collected a m f 1 2 show ?thesis by (intro conjI)
qed

text \<open>
  The claim as the specification words it fails on the input whose only assignment lacks
  its file name: the collection completes, the resolution maps the plus sign to
  \<^verbatim>\<open>undefined\<close>, and the script goes on to its three files.
\<close>

theorem missing_filename_is_collected:
  "collect [unnamedProposal] = Inr ([(plusSign, [unnamedCandidate])], 1)
   \<and> resolveConflicts [(plusSign, [unnamedCandidate])]
       = Inr \<lparr>emojiToIcon = [(plusSign, None)], emojiTies = []\<rparr>
   \<and> map_sum id (\<lambda>files. mappings (fst files))
       (createEmojiToIconMapping examplePlatform (''t1'', ''t2'', ''t3'') [unnamedProposal] FileMissing)
       = Inr [(plusSign, None)]"
proof (intro conjI)
  show "map_sum id (\<lambda>files. mappings (fst files))
       (createEmojiToIconMapping examplePlatform (''t1'', ''t2'', ''t3'') [unnamedProposal] FileMissing)
       = Inr [(plusSign, None)]"
    unfolding createEmojiToIconMapping_def unnamed_collected
    apply (simp add: unnamed_resolved applyManualOverrides_def writeOutputs_def sortByIconName_def)
    apply (simp add: fromEntries_def object_defs plusSign_def protoKey_def ascii_def)
    done
qed (rule unnamed_collected unnamed_resolved)+


subsection \<open>The output files and the clock\<close>

lemma writeOutputs_unstamped:
  "map_sum id unstamped (writeOutputs P clock n final)
     = map_sum id unstamped (writeOutputs P clock' n final)"
  by (cases clock; cases clock'; cases final)
    (auto simp: writeOutputs_def unstamped_def split: sum.splits)

lemma writeOutputs_generated:
  "writeOutputs P (t1, t2, t3) n final = Inr (byIcon, byEmoji, tieFile) \<Longrightarrow>
     generated byIcon = t1 \<and> generated byEmoji = t2 \<and> generated tieFile = t3"
  by (cases final) (auto simp: writeOutputs_def split: sum.splits)

lemma createEmojiToIconMapping_generated:
  "createEmojiToIconMapping P (t1, t2, t3) assignments src = Inr (byIcon, byEmoji, tieFile) \<Longrightarrow>
     generated byIcon = t1 \<and> generated byEmoji = t2 \<and> generated tieFile = t3"
  unfolding createEmojiToIconMapping_def
  by (auto split: sum.splits prod.splits dest: writeOutputs_generated)

text \<open>
  C4, as amended. Two runs on the same input without manual file write the same three
  files up to the field \<^verbatim>\<open>generated\<close>, and fail alike if they fail; \<^verbatim>\<open>generated\<close> holds
  the time at which each file was put together. So the files of two runs are identical
  only if the clock reads the same in both. The files are compared as the objects handed
  to \<^verbatim>\<open>JSON.stringify\<close>, whose text spells out every field.
\<close>

theorem runs_agree_up_to_generated:
  "map_sum id unstamped (createEmojiToIconMapping P clock assignments FileMissing)
     = map_sum id unstamped (createEmojiToIconMapping P clock' assignments FileMissing)
   \<and> (\<forall>byIcon byEmoji tieFile.
         createEmojiToIconMapping P (t1, t2, t3) assignments FileMissing
           = Inr (byIcon, byEmoji, tieFile) \<longrightarrow>
         generated byIcon = t1 \<and> generated byEmoji = t2 \<and> generated tieFile = t3)"
proof (rule conjI)
  show "map_sum id unstamped (createEmojiToIconMapping P clock assignments FileMissing)
     = map_sum id unstamped (createEmojiToIconMapping P clock' assignments FileMissing)"
    unfolding createEmojiToIconMapping_def
    by (auto split: sum.splits prod.splits simp: writeOutputs_unstamped)
  show "\<forall>byIcon byEmoji tieFile.
         createEmojiToIconMapping P (t1, t2, t3) assignments FileMissing
           = Inr (byIcon, byEmoji, tieFile) \<longrightarrow>
         generated byIcon = t1 \<and> generated byEmoji = t2 \<and> generated tieFile = t3"
    using createEmojiToIconMapping_generated by blast
qed

lemma circleOnly_collected:
  "collect circleOnly = Inr ([(largeCircle, [candidate ''circle'' 0.7 True None])], 1)"
  by (simp add: collect_defs object_defs circleOnly_def proposal_def example_defs)

lemma circleOnly_resolved:
  "resolveConflicts [(largeCircle, [candidate ''circle'' 0.7 True None])]
     = Inr \<lparr>emojiToIcon = [(largeCircle, Some (ascii ''circle''))], emojiTies = []\<rparr>"
  by (simp add: resolveConflicts_def resolveEntry_def object_defs example_defs)

lemma circleOnly_files:
  "createEmojiToIconMapping examplePlatform (t1, t2, t3) circleOnly FileMissing =
     Inr (\<lparr>generated = t1, note = noteByIcon, totalMappings = 1, primaryMappings = 1,
           alternativeMappings = 0, manualOverrides = 0,
           mappings = [(largeCircle, Some (ascii ''circle''))]\<rparr>,
          \<lparr>generated = t2, note = noteByEmoji, totalMappings = 1, primaryMappings = 1,
           alternativeMappings = 0, manualOverrides = 0,
           mappings = [(largeCircle, Some (ascii ''circle''))]\<rparr>,
          \<lparr>generated = t3, note = noteTies, totalTies = 0, ties = []\<rparr>)"
  apply (simp only: createEmojiToIconMapping_def circleOnly_collected sum.case prod.case
      circleOnly_resolved)
  apply (simp add: applyManualOverrides_def writeOutputs_def sortByIconName_def)
  apply (simp add: fromEntries_def ownKeys_def sortedByEmoji_def sortedTies_def jsSort_def
      valueOfKey_def object_defs largeCircle_def protoKey_def ascii_def)
  done

theorem runs_agree_up_to_generated_witness:
  "createEmojiToIconMapping examplePlatform
      (''2025-01-01T00:00:00.000Z'', ''2025-01-01T00:00:00.001Z'', ''2025-01-01T00:00:00.002Z'')
      circleOnly FileMissing =
     Inr (\<lparr>generated = ''2025-01-01T00:00:00.000Z'', note = noteByIcon, totalMappings = 1,
           primaryMappings = 1, alternativeMappings = 0, manualOverrides = 0,
           mappings = [(largeCircle, Some (ascii ''circle''))]\<rparr>,
          \<lparr>generated = ''2025-01-01T00:00:00.001Z'', note = noteByEmoji, totalMappings = 1,
           primaryMappings = 1, alternativeMappings = 0, manualOverrides = 0,
           mappings = [(largeCircle, Some (ascii ''circle''))]\<rparr>,
          \<lparr>generated = ''2025-01-01T00:00:00.002Z'', note = noteTies, totalTies = 0, ties = []\<rparr>)
   \<and> generated \<lparr>generated = ''2025-01-01T00:00:00.000Z'', note = noteByIcon, totalMappings = 1,
           primaryMappings = 1, alternativeMappings = 0, manualOverrides = 0,
           mappings = [(largeCircle, Some (ascii ''circle''))]\<rparr> = ''2025-01-01T00:00:00.000Z''"
  using runs_agree_up_to_generated [of examplePlatform _ circleOnly _
      "''2025-01-01T00:00:00.000Z''" "''2025-01-01T00:00:00.001Z''" "''2025-01-01T00:00:00.002Z''"]
    circleOnly_files [of "''2025-01-01T00:00:00.000Z''" "''2025-01-01T00:00:00.001Z''"
      "''2025-01-01T00:00:00.002Z''"]
  by simp

text \<open>
  The claim as the specification words it fails as soon as the clock moves between two
  runs: on the second example scenario, a run at midnight and a run one second later
  write different files.
\<close>

theorem later_run_writes_other_files:
  "createEmojiToIconMapping examplePlatform
      (''2025-01-01T00:00:00.000Z'', ''2025-01-01T00:00:00.000Z'', ''2025-01-01T00:00:00.000Z'')
      circleOnly FileMissing
   \<noteq> createEmojiToIconMapping examplePlatform
      (''2025-01-01T00:00:01.000Z'', ''2025-01-01T00:00:01.000Z'', ''2025-01-01T00:00:01.000Z'')
      circleOnly FileMissing"
  unfolding circleOnly_files by simp

subsection \<open>Labels that are array indices\<close>

lemma markAndDigit_collected:
  "collect markAndDigit =
     Inr ([(ascii ''!'', [candidate ''alert'' 0.85 True None]),
           (ascii ''9'', [candidate ''nine'' 0.85 True None])], 2)"
  by (simp add: collect_defs object_defs markAndDigit_def proposal_def example_defs)

lemma markAndDigit_resolved:
  "resolveConflicts [(ascii ''!'', [candidate ''alert'' 0.85 True None]),
                     (ascii ''9'', [candidate ''nine'' 0.85 True None])]
     = Inr \<lparr>emojiToIcon = [(ascii ''9'', Some (ascii ''nine'')), (ascii ''!'', Some (ascii ''alert''))],
            emojiTies = []\<rparr>"
  by (simp add: resolveConflicts_def resolveEntry_def object_defs example_defs)

text \<open>
  C9, evaluated where the code departs from it. The labels \<^verbatim>\<open>!\<close> and \<^verbatim>\<open>9\<close> are one
  grapheme unit each, and the exclamation mark comes before the digit in the comparison of
  strings: the claim puts \<^verbatim>\<open>!\<close> before \<^verbatim>\<open>9\<close>. The script's sort of the keys does so too
  (neither key holds an emoji match, so they tie there as well). The sorted keys are then
  written into a fresh object, and an object lists its array-index keys first, in numeric
  order, whatever the order of insertion: the file has \<^verbatim>\<open>9\<close> before \<^verbatim>\<open>!\<close>. When no key is
  an array index the file keeps the order of the sort (\<open>view_by_emoji_sorted\<close> below).
\<close>

theorem index_label_leaves_claimed_order:
  "graphemeUnits examplePlatform (codePoints (ascii ''!'')) = 1
   \<and> graphemeUnits examplePlatform (codePoints (ascii ''9'')) = 1
   \<and> localeCompare examplePlatform (ascii ''!'') (ascii ''9'') < 0
   \<and> claimedBefore examplePlatform (ascii ''!'') (ascii ''9'')
   \<and> jsSort (compareEmojiKeys examplePlatform) [ascii ''9'', ascii ''!'']
       = [ascii ''!'', ascii ''9'']
   \<and> map_sum id (\<lambda>files. map fst (mappings (fst (snd files))))
       (createEmojiToIconMapping examplePlatform (''t1'', ''t2'', ''t3'') markAndDigit FileMissing)
       = Inr [ascii ''9'', ascii ''!'']"
proof (intro conjI)
  show "graphemeUnits examplePlatform (codePoints (ascii ''!'')) = 1"
    and "graphemeUnits examplePlatform (codePoints (ascii ''9'')) = 1"
    by (simp_all add: ascii_def)
  show "localeCompare examplePlatform (ascii ''!'') (ascii ''9'') < 0"
    by (simp add: examplePlatform_def ascii_def)
  show "claimedBefore examplePlatform (ascii ''!'') (ascii ''9'')"
    by (simp add: claimedBefore_def examplePlatform_def ascii_def)
  show "jsSort (compareEmojiKeys examplePlatform) [ascii ''9'', ascii ''!'']
       = [ascii ''!'', ascii ''9'']"
    by (simp add: jsSort_def compareEmojiKeys_def emojiLength_def examplePlatform_def ascii_def
        isDigit_def)
  show "map_sum id (\<lambda>files. map fst (mappings (fst (snd files))))
       (createEmojiToIconMapping examplePlatform (''t1'', ''t2'', ''t3'') markAndDigit FileMissing)
       = Inr [ascii ''9'', ascii ''!'']"
    apply (simp only: createEmojiToIconMapping_def markAndDigit_collected sum.case prod.case
        markAndDigit_resolved)
    apply (simp add: applyManualOverrides_def writeOutputs_def sortByIconName_def)
    apply (simp add: fromEntries_def ownKeys_def sortedByEmoji_def jsSort_def valueOfKey_def
        compareEmojiKeys_def emojiLength_def examplePlatform_def compareIconNames_def
        object_defs protoKey_def ascii_def)
    done
qed

subsection \<open>Overrides where truthiness and presence agree\<close>

lemma map_of_overriddenBy_other:
  assumes "k' \<noteq> k"
  shows "map_of (overriddenBy (k', tv) m) k = map_of m k"
proof (cases "nonEmptyArray (k', tv)")
  case False
  then show ?thesis by (simp add: overriddenBy_skip)
next
  case True
  then obtain w ws where "tv = TieArray (w # ws)"
    by (auto simp: nonEmptyArray_def split: tieValue.splits list.splits)
  then show ?thesis
    using assms by (simp add: overriddenBy_winner map_of_setProp_other)
qed

lemma map_of_overriddenIcons_other:
  "k \<notin> fst ` set es \<Longrightarrow> map_of (overriddenIcons es m) k = map_of m k"
proof (induction es arbitrary: m)
  case Nil
  show ?case by (simp add: overriddenIcons_Nil)
next
  case (Cons e es)
  obtain k' tv where e: "e = (k', tv)" by (cases e)
  have "k' \<noteq> k" and "k \<notin> fst ` set es" using Cons.prems e by auto
  then show ?case
    unfolding overriddenIcons_Cons e by (simp add: Cons.IH map_of_overriddenBy_other)
qed

lemma overriddenIcons_append:
  "overriddenIcons (es @ fs) m = overriddenIcons fs (overriddenIcons es m)"
  by (induction es arbitrary: m) (simp_all add: overriddenIcons_Nil overriddenIcons_Cons)

lemma map_of_overriddenBy_same:
  assumes "k \<noteq> protoKey"
  shows "map_of (overriddenBy (k, TieArray (w # ws)) m) k =
     (if truthy (getProp m k) then Some (Some w) else map_of m k)"
proof (cases "truthy (getProp m k) \<and> getProp m k \<noteq> Own (Some w)")
  case True
  with assms show ?thesis by (simp add: overriddenBy_winner map_of_setProp)
next
  case False
  then have same: "overriddenBy (k, TieArray (w # ws)) m = m"
    by (auto simp: overriddenBy_winner)
  show ?thesis
  proof (cases "truthy (getProp m k)")
    case True
    with False have "getProp m k = Own (Some w)" by simp
    then have "map_of m k = Some (Some w)"
      by (auto simp: getProp_def split: option.splits if_splits)
    with True same show ?thesis by simp
  next
    case False
    with same show ?thesis by simp
  qed
qed

text \<open>
  For a key that is not \<^verbatim>\<open>__proto__\<close> and that the manual file lists with a non-empty
  array, the value after the loop is the first element of the array when the read of
  the key was truthy, and what it was otherwise. A present key with a non-empty file name
  is truthy; an absent key that \<^verbatim>\<open>Object.prototype\<close> does not define is not.
\<close>

lemma overriddenIcons_listed_key:
  assumes "distinct (map fst entries)" "(k, TieArray (w # ws)) \<in> set entries" "k \<noteq> protoKey"
  shows "map_of (overriddenIcons entries m) k =
     (if truthy (getProp m k) then Some (Some w) else map_of m k)"
proof -
  from assms(2) obtain pre post where split: "entries = pre @ (k, TieArray (w # ws)) # post"
    by (meson split_list)
  have pre: "k \<notin> fst ` set pre" and post: "k \<notin> fst ` set post"
    using assms(1) unfolding split by auto
  have before: "map_of (overriddenIcons pre m) k = map_of m k"
    by (rule map_of_overriddenIcons_other [OF pre])
  then have read: "getProp (overriddenIcons pre m) k = getProp m k"
    by (simp add: getProp_def)
  show ?thesis
    unfolding split overriddenIcons_append overriddenIcons_Cons
    by (simp add: map_of_overriddenIcons_other [OF post] map_of_overriddenBy_same [OF assms(3)]
        read before)
qed

lemma overriddenIcons_nominal:
  assumes "distinct (map fst entries)" "(k, TieArray (w # ws)) \<in> set entries" "k \<noteq> protoKey"
  shows "map_of m k = Some (Some s) \<Longrightarrow> s \<noteq> [] \<Longrightarrow>
           map_of (overriddenIcons entries m) k = Some (Some w)"
    and "map_of m k = None \<Longrightarrow> k \<notin> set protoNames \<Longrightarrow>
           map_of (overriddenIcons entries m) k = None"
  unfolding overriddenIcons_listed_key [OF assms]
  by (simp_all add: getProp_def truthy_def)

subsection \<open>The order of the view by emoji\<close>

lemma sorted_insertBy:
  assumes total: "\<And>a b. cmp a b \<le> 0 \<or> cmp b a \<le> 0"
    and trans: "\<And>a b c. cmp a b \<le> 0 \<Longrightarrow> cmp b c \<le> 0 \<Longrightarrow> cmp a c \<le> 0"
    and "sorted_wrt (\<lambda>a b. cmp a b \<le> 0) ys"
  shows "sorted_wrt (\<lambda>a b. cmp a b \<le> 0) (insertBy cmp x ys)"
  using assms(3)
proof (induction ys)
  case Nil
  show ?case by simp
next
  case (Cons y ys)
  show ?case
  proof (cases "cmp x y \<le> 0")
    case True
    then have "\<forall>z \<in> set ys. cmp x z \<le> 0" using Cons.prems trans by auto
    with True Cons.prems show ?thesis by simp
  next
    case False
    then have yx: "cmp y x \<le> 0" using total [of x y] by simp
    have "sorted_wrt (\<lambda>a b. cmp a b \<le> 0) (insertBy cmp x ys)"
      using Cons.IH Cons.prems by simp
    moreover have "\<forall>z \<in> set (insertBy cmp x ys). cmp y z \<le> 0"
      using Cons.prems yx by (auto simp: set_insertBy)
    ultimately show ?thesis using False by simp
  qed
qed

lemma sorted_jsSort:
  assumes "\<And>a b. cmp a b \<le> 0 \<or> cmp b a \<le> 0"
    and "\<And>a b c. cmp a b \<le> 0 \<Longrightarrow> cmp b c \<le> 0 \<Longrightarrow> cmp a c \<le> 0"
  shows "sorted_wrt (\<lambda>a b. cmp a b \<le> 0) (jsSort cmp xs)"
  unfolding jsSort_def
  by (induction xs) (simp_all add: sorted_insertBy [OF assms])

lemma update_absent: "k \<notin> fst ` set obj \<Longrightarrow> AList.update k v obj = obj @ [(k, v)]"
  by (induction obj) auto

lemma fromEntries_distinct:
  assumes "distinct (map fst es)" "protoKey \<notin> fst ` set es"
  shows "fromEntries es = es"
proof -
  have "distinct (map fst (acc @ es)) \<Longrightarrow> protoKey \<notin> fst ` set es \<Longrightarrow>
        foldl (\<lambda>obj p. setProp obj (fst p) (snd p)) acc es = acc @ es" for acc
  proof (induction es arbitrary: acc)
    case Nil
    show ?case by simp
  next
    case (Cons e es)
    have absent: "fst e \<notin> fst ` set acc" using Cons.prems(1) by auto
    have "setProp acc (fst e) (snd e) = acc @ [e]"
      using Cons.prems(2) absent by (auto simp: setProp_def update_absent)
    moreover have "distinct (map fst ((acc @ [e]) @ es))" using Cons.prems(1) by simp
    moreover have "protoKey \<notin> fst ` set es" using Cons.prems(2) by simp
    ultimately show ?case using Cons.IH [of "acc @ [e]"] by simp
  qed
  from this [of "[]"] assms show ?thesis by (simp add: fromEntries_def)
qed

lemma ownEntries_no_index:
  "\<forall>p \<in> set obj. \<not> isArrayIndex (fst p) \<Longrightarrow> ownEntries obj = obj"
  by (simp add: ownEntries_def filter_empty_conv)

text \<open>
  When \<^verbatim>\<open>localeCompare\<close> is a total preorder and no key of the mapping is an array index,
  the keys of the view by emoji stand in the order of the comparator: by number of emoji
  matches, then by \<^verbatim>\<open>localeCompare\<close>.
\<close>

lemma view_by_emoji_sorted:
  assumes total: "\<And>a b. localeCompare P a b \<le> 0 \<or> localeCompare P b a \<le> 0"
    and trans: "\<And>a b c. localeCompare P a b \<le> 0 \<Longrightarrow> localeCompare P b c \<le> 0
                  \<Longrightarrow> localeCompare P a c \<le> 0"
    and inv: "objectInv m"
    and noIndex: "\<forall>p \<in> set m. \<not> isArrayIndex (fst p)"
  shows "sorted_wrt
           (\<lambda>a b. emojiLength P a < emojiLength P b
                 \<or> (emojiLength P a = emojiLength P b \<and> localeCompare P a b \<le> 0))
           (map fst (ownEntries (sortedByEmoji P m)))"
proof -
  let ?cmp = "compareEmojiKeys P"
  let ?keys = "jsSort ?cmp (ownKeys m)"
  have le_iff: "?cmp a b \<le> 0 \<longleftrightarrow>
      emojiLength P a < emojiLength P b
      \<or> (emojiLength P a = emojiLength P b \<and> localeCompare P a b \<le> 0)" for a b
    by (auto simp: compareEmojiKeys_def Let_def)
  have cmp_total: "?cmp a b \<le> 0 \<or> ?cmp b a \<le> 0" for a b
    unfolding le_iff using total [of a b] by auto
  have cmp_trans: "?cmp a b \<le> 0 \<Longrightarrow> ?cmp b c \<le> 0 \<Longrightarrow> ?cmp a c \<le> 0" for a b c
    unfolding le_iff using trans [of a b c] by auto
  have sorted: "sorted_wrt (\<lambda>a b. ?cmp a b \<le> 0) ?keys"
    by (rule sorted_jsSort [OF cmp_total cmp_trans])
  have keys: "ownKeys m = map fst m"
    by (simp add: ownKeys_def ownEntries_no_index [OF noIndex])
  have set_keys: "set ?keys = fst ` set m" by (simp add: set_jsSort keys)
  have "mset ?keys = mset (map fst m)" by (simp add: mset_jsSort keys)
  then have dist: "distinct ?keys"
    using inv unfolding objectInv_def by (metis mset_eq_imp_distinct_iff)
  let ?entries = "map (\<lambda>key. (key, valueOfKey m None key)) ?keys"
  have fst_entries: "map fst ?entries = ?keys" by (simp add: comp_def)
  have "fromEntries ?entries = ?entries"
  proof (rule fromEntries_distinct)
    show "distinct (map fst ?entries)" unfolding fst_entries by (rule dist)
    show "protoKey \<notin> fst ` set ?entries"
      using inv set_keys unfolding objectInv_def by (simp add: image_image)
  qed
  then have view: "sortedByEmoji P m = ?entries" by (simp add: sortedByEmoji_def)
  have "\<forall>p \<in> set ?entries. \<not> isArrayIndex (fst p)"
    using noIndex set_keys by auto
  then have "ownEntries (sortedByEmoji P m) = ?entries"
    unfolding view by (rule ownEntries_no_index)
  then have "map fst (ownEntries (sortedByEmoji P m)) = ?keys" by (simp add: comp_def)
  with sorted show ?thesis by (simp add: le_iff)
qed

text \<open>
  The units that the count takes as one: a modifier base alone or followed by a modifier,
  a symbol of emoji presentation, an emoji followed by the variation selector.
\<close>

lemma emoji_units:
  "isEmojiModifierBase P b \<Longrightarrow> emojiMatches P [b] = 1"
  "isEmojiModifierBase P b \<Longrightarrow> isEmojiModifier P m \<Longrightarrow> emojiMatches P [b, m] = 1"
  "isEmojiPresentation P c \<Longrightarrow> emojiMatches P [c] = 1"
  "isEmoji P e \<Longrightarrow> \<not> isEmojiModifierBase P e \<Longrightarrow> \<not> isEmojiPresentation P e
     \<Longrightarrow> emojiMatches P [e, 0xFE0F] = 1"
  "isEmoji P e \<Longrightarrow> \<not> isEmojiModifierBase P e \<Longrightarrow> \<not> isEmojiPresentation P e
     \<Longrightarrow> emojiMatches P [e] = 0"
  by simp_all

subsection \<open>The scenarios of the specification\<close>

lemma scenario_add_plus:
  "resolveConflicts [(plusSign, [candidate ''add'' 0.9 True None, candidate ''plus'' 0.8 True None])]
     = Inr \<lparr>emojiToIcon = [(plusSign, Some (ascii ''add''))],
            emojiTies = [(plusSign, [Some (ascii ''add''), Some (ascii ''plus'')])]\<rparr>"
  by (simp add: resolveConflicts_def resolveEntry_def pickWinner_def jsSort_def object_defs
      example_defs)

lemma scenario_add_plus_override:
  "applyManualOverrides (TiesObject [(plusSign, TieArray [ascii ''plus''])])
       \<lparr>emojiToIcon = [(plusSign, Some (ascii ''add''))],
        emojiTies = [(plusSign, [Some (ascii ''add''), Some (ascii ''plus'')])]\<rparr>
     = (\<lparr>emojiToIcon = [(plusSign, Some (ascii ''plus''))],
         emojiTies = [(plusSign, [Some (ascii ''add''), Some (ascii ''plus'')])]\<rparr>,
        1,
        [LogInfo FoundManualFile, LogInfo (ManualOverride plusSign (ascii ''plus'')),
         LogInfo (AppliedOverrides 1)])"
  by (simp add: applyManualOverrides_def overrideEntry_def truthy_def getProp_def setProp_def
      plusSign_def protoKey_def ascii_def)

lemma scenario_file_add:
  "collect [proposal ''file-add'' pageFacingUp plusSign 0.85]
     = Inr ([(pageFacingUp, [candidate ''file-add'' 0.85 True None]),
             (pageFacingUp @ plusSign, [candidate ''file-add'' 0.85 True None])], 2)"
  by (simp add: collect_defs object_defs proposal_def example_defs)


end
